theory Spec2Isabelle
  imports Main
begin

section \<open>Python strings\<close>

text \<open>
  Python \<open>str\<close> values are modelled as HOL strings: sequences of characters with code
  points 0 to 255. The helpers below follow the behaviour of the \<open>str\<close> methods the source
  calls on such text.
\<close>

definition LF :: char where
  "LF = CHR 0x0A"

definition CR :: char where
  "CR = CHR 0x0D"

text \<open>
  \<open>str.isspace\<close> on one character, the set \<open>str.strip()\<close> removes: tab, LF, VT, FF, CR
  (9 to 13), FS, GS, RS, US, space (28 to 32), NEL (133) and the no-break space (160).
\<close>

definition is_space :: "char \<Rightarrow> bool" where
  "is_space c =
     (let n = (of_char c :: nat)
      in (9 \<le> n \<and> n \<le> 13) \<or> (28 \<le> n \<and> n \<le> 32) \<or> n = 133 \<or> n = 160)"

text \<open>\<open>s.strip()\<close>\<close>

definition strip :: "string \<Rightarrow> string" where
  "strip s = rev (dropWhile is_space (rev (dropWhile is_space s)))"

text \<open>
  \<open>s.lower()\<close>: the letters A to Z (65 to 90) and the capital letters of the Latin-1 range
  (192 to 222, without the multiplication sign 215) move up by 32; every other character below
  256 is its own lower case.
\<close>

definition lower_char :: "char \<Rightarrow> char" where
  "lower_char c =
     (let n = (of_char c :: nat)
      in if (65 \<le> n \<and> n \<le> 90) \<or> (192 \<le> n \<and> n \<le> 222 \<and> n \<noteq> 215) then char_of (n + 32) else c)"

definition lower :: "string \<Rightarrow> string" where
  "lower s = map lower_char s"

text \<open>\<open>s.split(sep)\<close> for a one-character separator: never an empty list.\<close>

fun split_char :: "char \<Rightarrow> string \<Rightarrow> string list" where
  "split_char sep [] = [[]]"
| "split_char sep (c # cs) =
     (if c = sep then [] # split_char sep cs
      else (case split_char sep cs of
              p # ps \<Rightarrow> (c # p) # ps
            | [] \<Rightarrow> [[c]]))"

text \<open>\<open>sep.join(parts)\<close> for a one-character separator.\<close>

fun join_char :: "char \<Rightarrow> string list \<Rightarrow> string" where
  "join_char sep [] = []"
| "join_char sep [p] = p"
| "join_char sep (p # q # ps) = p @ sep # join_char sep (q # ps)"

text \<open>\<open>s.startswith("#")\<close>\<close>

fun startswith_hash :: "string \<Rightarrow> bool" where
  "startswith_hash [] = False"
| "startswith_hash (c # cs) = (c = CHR ''#'')"

text \<open>\<open>str(n)\<close> for a natural number.\<close>

definition digit_char :: "nat \<Rightarrow> char" where
  "digit_char d = char_of (48 + d)"

function str_nat :: "nat \<Rightarrow> string" where
  "str_nat n = (if n < 10 then [digit_char n] else str_nat (n div 10) @ [digit_char (n mod 10)])"
  by pat_completeness auto
termination
  by (relation "measure id") auto

declare str_nat.simps [simp del]

text \<open>
  Reading a text file with universal newlines (the default of \<open>open(path, "r")\<close>):
  \<open>\r\n\<close> and a lone \<open>\r\<close> both arrive as \<open>\n\<close>.
\<close>

fun universal_newlines :: "string \<Rightarrow> string" where
  "universal_newlines [] = []"
| "universal_newlines [c] = [if c = CR then LF else c]"
| "universal_newlines (c # d # ds) =
     (if c = CR \<and> d = LF then LF # universal_newlines ds
      else if c = CR then LF # universal_newlines (d # ds)
      else c # universal_newlines (d # ds))"

text \<open>
  The lines \<open>for line in f\<close> yields, each without its terminating \<open>\n\<close>. The source only
  ever applies \<open>line.strip()\<close> and \<open>line.rstrip('\n')\<close> to a line, and both discard the
  terminator.
\<close>

definition file_lines :: "string \<Rightarrow> string list" where
  "file_lines content =
     (let ps = split_char LF (universal_newlines content)
      in if last ps = [] then butlast ps else ps)"

text \<open>Python indexing \<open>xs[i]\<close>: a negative index counts from the end, out of range raises.\<close>

definition py_index :: "'a list \<Rightarrow> int \<Rightarrow> 'a option" where
  "py_index xs i =
     (let n = int (length xs); j = (if i < 0 then n + i else i)
      in if 0 \<le> j \<and> j < n then Some (xs ! nat j) else None)"


section \<open>CookieManager (utils/cookie\_manager.py)\<close>

text \<open>
  The manager's state: the files of \<open>cookies_dir\<close> (file name to decoded text, absent when
  the file does not exist) and the per-platform cache \<open>_cache\<close>. File operations
  themselves are taken to succeed.
\<close>

record cookie_manager =
  files :: "string \<rightharpoonup> string"
  cache :: "string \<rightharpoonup> string list"

definition platform_files :: "(string \<times> string) list" where
  "platform_files =
     [(''xhs'', ''xhs_cookies.txt''),
      (''xiaohongshu'', ''xhs_cookies.txt''),
      (''weibo'', ''weibo_cookies.txt''),
      (''wb'', ''weibo_cookies.txt''),
      (''douyin'', ''douyin_cookies.txt''),
      (''dy'', ''douyin_cookies.txt''),
      (''bilibili'', ''bilibili_cookies.txt''),
      (''bili'', ''bilibili_cookies.txt''),
      (''kuaishou'', ''kuaishou_cookies.txt''),
      (''ks'', ''kuaishou_cookies.txt''),
      (''tieba'', ''tieba_cookies.txt''),
      (''zhihu'', ''zhihu_cookies.txt'')]"

text \<open>The test of \<open>_load_cookies_from_file\<close> on a stripped line: kept as a cookie record.\<close>

definition is_cookie_line :: "string \<Rightarrow> bool" where
  "is_cookie_line stripped = (stripped \<noteq> [] \<and> \<not> startswith_hash stripped \<and> CHR ''='' \<in> set stripped)"

definition load_cookies_from_file :: "(string \<rightharpoonup> string) \<Rightarrow> string \<Rightarrow> string list" where
  "load_cookies_from_file fs filepath =
     (case fs filepath of
        None \<Rightarrow> []
      | Some content \<Rightarrow> filter is_cookie_line (map strip (file_lines content)))"

definition get_cookie_file :: "string \<Rightarrow> string" where
  "get_cookie_file platform =
     (case map_of platform_files (lower platform) of
        Some filename \<Rightarrow> filename
      | None \<Rightarrow> platform @ ''_cookies.txt'')"

definition get_all_cookies :: "cookie_manager \<Rightarrow> string \<Rightarrow> string list \<times> cookie_manager" where
  "get_all_cookies cm platform0 =
     (let platform = lower platform0 in
      case cache cm platform of
        Some cookies \<Rightarrow> (cookies, cm)
      | None \<Rightarrow>
          (let cookies = load_cookies_from_file (files cm) (get_cookie_file platform)
           in (cookies, cm\<lparr>cache := (cache cm)(platform \<mapsto> cookies)\<rparr>)))"

text \<open>
  \<open>get_cookie\<close>. \<open>account_index\<close> is \<open>None\<close> or an integer; \<open>pick\<close> stands for the draw of
  \<open>random.choice\<close>, which returns the element at some position of the list.
\<close>

definition get_cookie ::
  "cookie_manager \<Rightarrow> string \<Rightarrow> int option \<Rightarrow> bool \<Rightarrow> nat \<Rightarrow> string \<times> cookie_manager" where
  "get_cookie cm platform account_index random_select pick =
     (let (cookies, cm') = get_all_cookies cm platform in
      if cookies = [] then ([], cm')
      else (case account_index of
              Some i \<Rightarrow>
                (if 0 \<le> i \<and> i < int (length cookies) then (cookies ! nat i, cm') else ([], cm'))
            | None \<Rightarrow>
                (if random_select then (cookies ! (pick mod length cookies), cm')
                 else (cookies ! 0, cm'))))"

text \<open>
  \<open>save_cookie\<close>. The only exception the body can raise on a working file system is the
  \<open>IndexError\<close> of \<open>cookie_lines_indices[account_index]\<close> for a negative index before the
  start of the list; the \<open>except\<close> clause turns it into \<open>False\<close>.
\<close>

definition cookie_lines_indices :: "string list \<Rightarrow> nat list" where
  "cookie_lines_indices lines = filter (\<lambda>i. is_cookie_line (strip (lines ! i))) [0..<length lines]"

definition save_cookie :: "cookie_manager \<Rightarrow> string \<Rightarrow> string \<Rightarrow> int \<Rightarrow> bool \<times> cookie_manager" where
  "save_cookie cm platform cookie_str account_index =
     (if cookie_str = [] \<or> strip cookie_str = [] then (False, cm)
      else
        (let cookie_file = get_cookie_file platform;
             lines = (case files cm cookie_file of None \<Rightarrow> [] | Some content \<Rightarrow> file_lines content);
             idxs = cookie_lines_indices lines;
             new_lines =
               (if account_index < int (length idxs) then
                  (case py_index idxs account_index of
                     None \<Rightarrow> None
                   | Some target_line \<Rightarrow> Some (lines[target_line := strip cookie_str]))
                else
                  Some ((if lines \<noteq> [] \<and> last lines \<noteq> [] then lines @ [[]] else lines)
                        @ [''# Account '' @ str_nat (length idxs + 1) @ '' - Auto-saved after login'',
                           strip cookie_str]))
         in case new_lines of
              None \<Rightarrow> (False, cm)
            | Some ls \<Rightarrow>
                (True,
                 cm\<lparr>files := (files cm)(cookie_file \<mapsto> join_char LF ls @ (if ls \<noteq> [] then [LF] else [])),
                    cache := (cache cm)(lower platform := None)\<rparr>)))"


subsection \<open>Example stores\<close>

text \<open>An empty cookie directory, and one holding a comment line and one record for xhs.\<close>

definition cm_empty :: cookie_manager where
  "cm_empty = \<lparr>files = Map.empty, cache = Map.empty\<rparr>"

definition cm_one :: cookie_manager where
  "cm_one = \<lparr>files = [''xhs_cookies.txt'' \<mapsto> ''# main'' @ [LF] @ ''a=1; b=2'' @ [LF]],
             cache = Map.empty\<rparr>"

section \<open>Python values and exceptions\<close>

text \<open>
  Values that cross the boundary to the browser driver, the platform client and the other
  collaborators are dynamically typed. They are modelled as JSON-like values; a dictionary is
  an association list in insertion order, with distinct keys.
\<close>

datatype json =
    JNull
  | JBool bool
  | JInt int
  | JStr string
  | JList "json list"
  | JDict "(string \<times> json) list"

text \<open>
  Exceptions (instances of \<open>Exception\<close>): the two the interpreter raises on ill-shaped
  values, \<open>ValueError\<close>, and whatever a collaborator raises, kept by its message.
\<close>

datatype exn =
    AttributeError string string
  | TypeError string
  | ValueError string
  | Raised string

text \<open>\<open>str(e)\<close>\<close>

fun str_exn :: "exn \<Rightarrow> string" where
  "str_exn (AttributeError ty attr) =
     [CHR 0x27] @ ty @ [CHR 0x27] @ '' object has no attribute '' @ [CHR 0x27] @ attr @ [CHR 0x27]"
| "str_exn (TypeError msg) = msg"
| "str_exn (ValueError msg) = msg"
| "str_exn (Raised msg) = msg"

text \<open>\<open>type(v).__name__\<close>\<close>

fun type_name :: "json \<Rightarrow> string" where
  "type_name JNull = ''NoneType''"
| "type_name (JBool b) = ''bool''"
| "type_name (JInt i) = ''int''"
| "type_name (JStr s) = ''str''"
| "type_name (JList xs) = ''list''"
| "type_name (JDict kvs) = ''dict''"

text \<open>Truth value of \<open>v\<close> in \<open>if v:\<close> and \<open>not v\<close>.\<close>

fun truthy :: "json \<Rightarrow> bool" where
  "truthy JNull = False"
| "truthy (JBool b) = b"
| "truthy (JInt i) = (i \<noteq> 0)"
| "truthy (JStr s) = (s \<noteq> [])"
| "truthy (JList xs) = (xs \<noteq> [])"
| "truthy (JDict kvs) = (kvs \<noteq> [])"

text \<open>\<open>obj.get(key, default)\<close>: only a dictionary has the method.\<close>

fun py_get :: "json \<Rightarrow> string \<Rightarrow> json \<Rightarrow> exn + json" where
  "py_get (JDict kvs) key dflt = Inr (case map_of kvs key of Some v \<Rightarrow> v | None \<Rightarrow> dflt)"
| "py_get obj key dflt = Inl (AttributeError (type_name obj) ''get'')"

text \<open>The elements \<open>for x in obj\<close> runs through: a dictionary yields its keys, a string its characters.\<close>

fun py_iter :: "json \<Rightarrow> exn + json list" where
  "py_iter (JList xs) = Inr xs"
| "py_iter (JDict kvs) = Inr (map (\<lambda>kv. JStr (fst kv)) kvs)"
| "py_iter (JStr s) = Inr (map (\<lambda>c. JStr [c]) s)"
| "py_iter obj = Inl (TypeError ([CHR 0x27] @ type_name obj @ [CHR 0x27] @ '' object is not iterable''))"

text \<open>\<open>sub in s\<close> on strings\<close>

fun is_substring :: "string \<Rightarrow> string \<Rightarrow> bool" where
  "is_substring sub [] = (sub = [])"
| "is_substring sub (c # cs) = (take (length sub) (c # cs) = sub \<or> is_substring sub cs)"

text \<open>\<open>key in obj\<close> for a string key\<close>

fun py_contains :: "string \<Rightarrow> json \<Rightarrow> exn + bool" where
  "py_contains key (JDict kvs) = Inr (key \<in> fst ` set kvs)"
| "py_contains key (JList xs) = Inr (JStr key \<in> set xs)"
| "py_contains key (JStr s) = Inr (is_substring key s)"
| "py_contains key obj =
     Inl (TypeError (''argument of type '' @ [CHR 0x27] @ type_name obj @ [CHR 0x27] @ '' is not iterable''))"

text \<open>\<open>xs[:n]\<close>\<close>

definition py_take :: "'a list \<Rightarrow> int \<Rightarrow> 'a list" where
  "py_take xs n = (if 0 \<le> n then take (nat n) xs else take (length xs - nat (- n)) xs)"

text \<open>\<open>d[key] = value\<close> on an insertion-ordered dictionary\<close>

definition dict_set :: "(string \<times> 'v) list \<Rightarrow> string \<Rightarrow> 'v \<Rightarrow> (string \<times> 'v) list" where
  "dict_set d key v =
     (if key \<in> fst ` set d then map (\<lambda>kv. if fst kv = key then (key, v) else kv) d
      else d @ [(key, v)])"


section \<open>The outside world\<close>

text \<open>
  Every operation on a collaborator (browser driver, platform client, login flow, cookie
  store as seen from the session manager, result sink) is a \<open>call\<close>. A browser-side object is
  named by its handle: the position in the trace of the call that created it.
\<close>

datatype SearchSortType = GENERAL | MOST_POPULAR | LATEST

datatype call =
    CookieManagerGet string string
  | CookieManagerSave string string json
  | PlaywrightStart
  | ChromiumLaunch nat bool
  | NewContext nat string
  | AddInitScript nat
  | AddCookies nat json
  | NewPage nat
  | PageGoto nat string string
  | PageEvaluate nat string
  | PageTitle nat
  | ContextCookies nat "string list"
  | Sleep nat
  | ClientNew string json
  | ClientPong nat
  | ClientUpdateCookies nat "string list"
  | ClientSetCookies nat json
  | LoginNew string json
  | LoginBegin nat
  | BrowserClose nat
  | PlaywrightStop nat
  | ParseNoteUrl string
  | GetNoteByKeyword nat string int SearchSortType
  | GetNoteById nat string json
  | GetNoteComments nat string json json
  | GetCreatorInfo nat string
  | SaveJson json string string

text \<open>
  The environment answers a call, given all calls made before it, with a value or an
  exception. The state threaded through the program is the trace of calls made so far.
\<close>

type_synonym env = "call list \<Rightarrow> call \<Rightarrow> exn + json"

type_synonym 'a io = "call list \<Rightarrow> (exn + 'a) \<times> call list"

definition io_ret :: "'a \<Rightarrow> 'a io" where
  "io_ret x tr = (Inr x, tr)"

definition io_raise :: "exn \<Rightarrow> 'a io" where
  "io_raise e tr = (Inl e, tr)"

definition io_lift :: "exn + 'a \<Rightarrow> 'a io" where
  "io_lift r tr = (r, tr)"

definition io_bind :: "'a io \<Rightarrow> ('a \<Rightarrow> 'b io) \<Rightarrow> 'b io" where
  "io_bind f g tr = (case f tr of (Inl e, tr') \<Rightarrow> (Inl e, tr') | (Inr x, tr') \<Rightarrow> g x tr')"

text \<open>A call whose result is used.\<close>

definition ext :: "env \<Rightarrow> call \<Rightarrow> json io" where
  "ext env c tr = (env tr c, tr @ [c])"

text \<open>A call that creates an object: the result is the new object's handle.\<close>

definition ext_h :: "env \<Rightarrow> call \<Rightarrow> nat io" where
  "ext_h env c tr = ((case env tr c of Inl e \<Rightarrow> Inl e | Inr v \<Rightarrow> Inr (length tr)), tr @ [c])"

text \<open>A step that cannot raise (\<open>asyncio.sleep\<close>, an attribute assignment on the client).\<close>

definition emit :: "call \<Rightarrow> unit io" where
  "emit c tr = (Inr (), tr @ [c])"

text \<open>\<open>try: f  except Exception: pass\<close>\<close>

definition swallow :: "'a io \<Rightarrow> unit io" where
  "swallow f tr = (Inr (), snd (f tr))"

text \<open>\<open>try: f  except Exception: g\<close>\<close>

definition try_else :: "'a io \<Rightarrow> 'a io \<Rightarrow> 'a io" where
  "try_else f g tr = (case f tr of (Inl e, tr') \<Rightarrow> g tr' | (Inr x, tr') \<Rightarrow> (Inr x, tr'))"

text \<open>The values of the \<open>config\<close> module the code reads.\<close>

record config =
  COOKIES :: json
  COOKIES_DIR :: string


section \<open>Cookie strings (utils/cookie\_manager.py, module functions)\<close>

definition parse_item :: "string \<Rightarrow> (string \<times> string) list \<Rightarrow> (string \<times> string) list" where
  "parse_item item0 d =
     (let item = strip item0 in
      if CHR ''='' \<in> set item
      then dict_set d (strip (takeWhile (\<lambda>c. c \<noteq> CHR ''='') item))
                      (strip (tl (dropWhile (\<lambda>c. c \<noteq> CHR ''='') item)))
      else d)"

definition parse_cookie_string :: "json \<Rightarrow> exn + (string \<times> string) list" where
  "parse_cookie_string cookie_str =
     (if \<not> truthy cookie_str then Inr []
      else (case cookie_str of
              JStr s \<Rightarrow> Inr (fold parse_item (split_char CHR '';'' s) [])
            | _ \<Rightarrow> Inl (AttributeError (type_name cookie_str) ''split'')))"

definition format_cookies_for_playwright :: "json \<Rightarrow> string \<Rightarrow> exn + json list" where
  "format_cookies_for_playwright cookie_str domain =
     (case parse_cookie_string cookie_str of
        Inl e \<Rightarrow> Inl e
      | Inr d \<Rightarrow>
          Inr (map (\<lambda>kv. JDict [(''name'', JStr (fst kv)), (''value'', JStr (snd kv)),
                                (''domain'', JStr domain), (''path'', JStr ''/'')]) d))"


section \<open>BrowserSessionManager (utils/browser\_session.py)\<close>

text \<open>
  A session holds the handles of its browser objects and client. \<open>created_at\<close> is left out:
  no code reads it.
\<close>

record browser_session =
  s_platform :: string
  s_playwright :: nat
  s_browser :: nat
  s_context :: nat
  s_page :: nat
  s_client :: nat
  s_cookie_str :: json
  s_is_logged_in :: json

text \<open>The manager's state is the dictionary \<open>_sessions\<close>.\<close>

type_synonym sessions = "string \<rightharpoonup> browser_session"

text \<open>\<open>_get_platform_config\<close>: index URL, user agent and cookie domains; unknown platforms get the xhs entry.\<close>

definition desktop_user_agent :: string where
  "desktop_user_agent = ''Mozilla/5.0 (Macintosh; Intel Mac OS X 10_15_7) AppleWebKit/537.36 (KHTML, like Gecko) Chrome/131.0.0.0 Safari/537.36''"

definition mobile_user_agent :: string where
  "mobile_user_agent = ''Mozilla/5.0 (iPhone; CPU iPhone OS 16_6 like Mac OS X) AppleWebKit/605.1.15 (KHTML, like Gecko) Version/16.6 Mobile/15E148 Safari/604.1''"

definition get_platform_config :: "string \<Rightarrow> string \<times> string \<times> string list" where
  "get_platform_config platform =
     (if platform = ''weibo'' then (''https://m.weibo.cn'', mobile_user_agent, [''.weibo.cn'', ''.weibo.com''])
      else if platform = ''douyin'' then (''https://www.douyin.com'', desktop_user_agent, [''.douyin.com''])
      else (''https://www.xiaohongshu.com/explore'', desktop_user_agent, [''.xiaohongshu.com'']))"

text \<open>The closing block shared by the three setup functions: write the browser's cookies back.\<close>

definition save_cookies_to_file :: "env \<Rightarrow> string \<Rightarrow> string \<Rightarrow> nat \<Rightarrow> json \<Rightarrow> unit io" where
  "save_cookies_to_file env dir platform context is_logged_in =
     (if truthy is_logged_in
      then io_bind (ext env (ContextCookies context [])) (\<lambda>new_cookie_str.
           if truthy new_cookie_str
           then io_bind (ext env (CookieManagerSave dir platform new_cookie_str)) (\<lambda>_. io_ret ())
           else io_ret ())
      else io_ret ())"

definition setup_xhs_client ::
  "env \<Rightarrow> string \<Rightarrow> nat \<Rightarrow> nat \<Rightarrow> json \<Rightarrow> bool \<Rightarrow> (nat \<times> json) io" where
  "setup_xhs_client env dir context page cookie_str0 headless =
     io_bind (ext env (ContextCookies context [])) (\<lambda>current_cookie_str.
     let cookie_str = (if truthy current_cookie_str then current_cookie_str else cookie_str0) in
     io_bind (ext_h env (ClientNew ''xhs'' cookie_str)) (\<lambda>client.
     io_bind (ext env (ClientPong client)) (\<lambda>is_logged_in.
     if truthy is_logged_in
     then io_bind (save_cookies_to_file env dir ''xhs'' context is_logged_in) (\<lambda>_.
          io_ret (client, is_logged_in))
     else if headless then io_ret (client, JBool False)
     else io_bind (ext_h env (LoginNew ''xhs'' cookie_str)) (\<lambda>login_obj.
          io_bind (ext env (LoginBegin login_obj)) (\<lambda>_.
          io_bind (ext env (ClientUpdateCookies client [])) (\<lambda>_.
          io_bind (save_cookies_to_file env dir ''xhs'' context (JBool True)) (\<lambda>_.
          io_ret (client, JBool True))))))))"

definition setup_weibo_client ::
  "env \<Rightarrow> string \<Rightarrow> nat \<Rightarrow> nat \<Rightarrow> json \<Rightarrow> bool \<Rightarrow> (nat \<times> json) io" where
  "setup_weibo_client env dir context page cookie_str headless =
     io_bind (ext env (ContextCookies context [''https://m.weibo.cn''])) (\<lambda>mobile0.
     let mobile_cookie_str = (if \<not> truthy mobile0 \<and> truthy cookie_str then cookie_str else mobile0) in
     io_bind (ext_h env (ClientNew ''weibo'' mobile_cookie_str)) (\<lambda>client.
     io_bind (ext env (ClientPong client)) (\<lambda>is_logged_in.
     if truthy is_logged_in
     then io_bind (save_cookies_to_file env dir ''weibo'' context is_logged_in) (\<lambda>_.
          io_ret (client, is_logged_in))
     else if headless then io_ret (client, JBool False)
     else io_bind (ext env (PageGoto page ''https://weibo.com'' ''load'')) (\<lambda>_.
          io_bind (emit (Sleep 2)) (\<lambda>_.
          io_bind (ext_h env (LoginNew ''weibo'' cookie_str)) (\<lambda>login_obj.
          io_bind (ext env (LoginBegin login_obj)) (\<lambda>_.
          io_bind (ext env (PageGoto page ''https://m.weibo.cn'' ''load'')) (\<lambda>_.
          io_bind (emit (Sleep 3)) (\<lambda>_.
          io_bind (ext env (ClientUpdateCookies client [''https://m.weibo.cn''])) (\<lambda>_.
          io_bind (ext env (ContextCookies context [''https://m.weibo.cn''])) (\<lambda>mobile1.
          io_bind (emit (ClientSetCookies client mobile1)) (\<lambda>_.
          io_bind (save_cookies_to_file env dir ''weibo'' context (JBool True)) (\<lambda>_.
          io_ret (client, JBool True))))))))))))))"

definition setup_douyin_client ::
  "env \<Rightarrow> string \<Rightarrow> nat \<Rightarrow> nat \<Rightarrow> json \<Rightarrow> bool \<Rightarrow> (nat \<times> json) io" where
  "setup_douyin_client env dir context page cookie_str0 headless =
     io_bind (ext env (ContextCookies context [])) (\<lambda>current_cookie_str.
     let cookie_str = (if truthy current_cookie_str then current_cookie_str else cookie_str0) in
     io_bind (ext env (PageEvaluate page ''() => navigator.userAgent'')) (\<lambda>user_agent.
     io_bind (ext_h env (ClientNew ''douyin'' cookie_str)) (\<lambda>client.
     io_bind (ext env (ClientPong client)) (\<lambda>is_logged_in.
     if truthy is_logged_in
     then io_bind (save_cookies_to_file env dir ''douyin'' context is_logged_in) (\<lambda>_.
          io_ret (client, is_logged_in))
     else if headless then io_ret (client, JBool False)
     else io_bind (ext_h env (LoginNew ''douyin'' (JStr []))) (\<lambda>login_obj.
          io_bind (ext env (LoginBegin login_obj)) (\<lambda>_.
          io_bind (emit (Sleep 3)) (\<lambda>_.
          io_bind (ext env (ClientUpdateCookies client [])) (\<lambda>_.
          io_bind (ext env (ContextCookies context [])) (\<lambda>new_cookie_str.
          io_bind (emit (ClientSetCookies client new_cookie_str)) (\<lambda>_.
          io_bind (save_cookies_to_file env dir ''douyin'' context (JBool True)) (\<lambda>_.
          io_ret (client, JBool True))))))))))))"

definition setup_client_and_login ::
  "env \<Rightarrow> string \<Rightarrow> string \<Rightarrow> nat \<Rightarrow> nat \<Rightarrow> json \<Rightarrow> bool \<Rightarrow> (nat \<times> json) io" where
  "setup_client_and_login env dir platform context page cookie_str headless =
     (if platform = ''xhs'' then setup_xhs_client env dir context page cookie_str headless
      else if platform = ''weibo'' then setup_weibo_client env dir context page cookie_str headless
      else if platform = ''douyin'' then setup_douyin_client env dir context page cookie_str headless
      else io_raise (ValueError (''Unsupported platform: '' @ platform)))"

text \<open>The loop of \<open>_create_session\<close> that injects the file's cookies for each cookie domain.\<close>

fun inject_cookies :: "env \<Rightarrow> nat \<Rightarrow> json \<Rightarrow> string list \<Rightarrow> unit io" where
  "inject_cookies env context cookie_str [] = io_ret ()"
| "inject_cookies env context cookie_str (domain # domains) =
     io_bind (io_lift (format_cookies_for_playwright cookie_str domain)) (\<lambda>cookies.
     io_bind (if cookies \<noteq> [] then io_bind (ext env (AddCookies context (JList cookies))) (\<lambda>_. io_ret ())
              else io_ret ()) (\<lambda>_.
     inject_cookies env context cookie_str domains))"

text \<open>The directory \<open>get_cookie_manager\<close> is called with.\<close>

definition cookie_dir :: "config \<Rightarrow> string option \<Rightarrow> string" where
  "cookie_dir cfg cookies_dir =
     (case cookies_dir of
        Some d \<Rightarrow> (if d \<noteq> [] then d else COOKIES_DIR cfg)
      | None \<Rightarrow> COOKIES_DIR cfg)"

definition create_session ::
  "env \<Rightarrow> config \<Rightarrow> string \<Rightarrow> bool \<Rightarrow> string option \<Rightarrow> browser_session io" where
  "create_session env cfg platform headless cookies_dir =
     (let (index_url, user_agent, cookie_domains) = get_platform_config platform;
          dir = cookie_dir cfg cookies_dir in
      io_bind (ext env (CookieManagerGet dir platform)) (\<lambda>cookie_str0.
      let cookie_str = (if \<not> truthy cookie_str0 then COOKIES cfg else cookie_str0) in
      io_bind (io_lift (parse_cookie_string cookie_str)) (\<lambda>cookie_dict.
      io_bind (ext_h env PlaywrightStart) (\<lambda>p.
      io_bind (ext_h env (ChromiumLaunch p headless)) (\<lambda>browser.
      io_bind (ext_h env (NewContext browser user_agent)) (\<lambda>context.
      io_bind (ext env (AddInitScript context)) (\<lambda>_.
      io_bind (if truthy cookie_str then inject_cookies env context cookie_str cookie_domains
               else io_ret ()) (\<lambda>_.
      io_bind (ext_h env (NewPage context)) (\<lambda>page.
      io_bind (try_else (ext env (PageGoto page index_url ''domcontentloaded''))
                        (ext env (PageGoto page index_url ''load''))) (\<lambda>_.
      io_bind (emit (Sleep 3)) (\<lambda>_.
      io_bind (setup_client_and_login env dir platform context page cookie_str headless) (\<lambda>(client, is_logged_in).
      io_bind (ext env (ContextCookies context [])) (\<lambda>final_cookie_str.
      io_ret \<lparr>s_platform = platform, s_playwright = p, s_browser = browser, s_context = context,
              s_page = page, s_client = client, s_cookie_str = final_cookie_str,
              s_is_logged_in = is_logged_in\<rparr>)))))))))))))"

text \<open>\<open>_cleanup_session\<close>: both closing calls are made, whatever they raise.\<close>

definition cleanup_session :: "env \<Rightarrow> sessions \<Rightarrow> string \<Rightarrow> call list \<Rightarrow> sessions \<times> call list" where
  "cleanup_session env ss platform tr =
     (case ss platform of
        None \<Rightarrow> (ss, tr)
      | Some session \<Rightarrow>
          (ss(platform := None),
           snd (io_bind (swallow (ext env (BrowserClose (s_browser session)))) (\<lambda>_.
                         swallow (ext env (PlaywrightStop (s_playwright session)))) tr)))"

text \<open>
  \<open>get_session\<close>, run under the platform's lock: the result, the manager's sessions afterwards
  and the trace.
\<close>

definition store_new_session ::
  "env \<Rightarrow> config \<Rightarrow> sessions \<Rightarrow> string \<Rightarrow> bool \<Rightarrow> string option \<Rightarrow> call list
     \<Rightarrow> (exn + browser_session) \<times> sessions \<times> call list" where
  "store_new_session env cfg ss platform headless cookies_dir tr =
     (case create_session env cfg platform headless cookies_dir tr of
        (Inl e, tr') \<Rightarrow> (Inl e, ss, tr')
      | (Inr session, tr') \<Rightarrow> (Inr session, ss(platform \<mapsto> session), tr'))"

definition get_session ::
  "env \<Rightarrow> config \<Rightarrow> sessions \<Rightarrow> string \<Rightarrow> bool \<Rightarrow> string option \<Rightarrow> bool \<Rightarrow> call list
     \<Rightarrow> (exn + browser_session) \<times> sessions \<times> call list" where
  "get_session env cfg ss platform headless cookies_dir force_new tr =
     (case ss platform of
        Some session \<Rightarrow>
          (if \<not> force_new then
             (case ext env (PageTitle (s_page session)) tr of
                (Inr title, tr') \<Rightarrow> (Inr session, ss, tr')
              | (Inl e, tr') \<Rightarrow>
                  (let (ss', tr'') = cleanup_session env ss platform tr'
                   in store_new_session env cfg ss' platform headless cookies_dir tr''))
           else store_new_session env cfg ss platform headless cookies_dir tr)
      | None \<Rightarrow> store_new_session env cfg ss platform headless cookies_dir tr)"

definition close_session :: "env \<Rightarrow> sessions \<Rightarrow> string \<Rightarrow> call list \<Rightarrow> sessions \<times> call list" where
  "close_session env ss platform tr = cleanup_session env ss platform tr"

definition has_session :: "sessions \<Rightarrow> string \<Rightarrow> bool" where
  "has_session ss platform = (ss platform \<noteq> None)"


subsection \<open>Reading a trace\<close>

text \<open>Calls that start the interactive (QR code) login, and calls that release a browser.\<close>

fun is_login_call :: "call \<Rightarrow> bool" where
  "is_login_call (LoginNew platform cookie_str) = True"
| "is_login_call (LoginBegin login_obj) = True"
| "is_login_call c = False"

fun is_close_call :: "call \<Rightarrow> bool" where
  "is_close_call (BrowserClose browser) = True"
| "is_close_call (PlaywrightStop p) = True"
| "is_close_call c = False"

fun is_launch_call :: "call \<Rightarrow> bool" where
  "is_launch_call PlaywrightStart = True"
| "is_launch_call (ChromiumLaunch p headless) = True"
| "is_launch_call c = False"

text \<open>The answers the environment gave to the calls \<open>cs\<close> made after the trace \<open>pre\<close>.\<close>

fun answers :: "env \<Rightarrow> call list \<Rightarrow> call list \<Rightarrow> (call \<times> (exn + json)) list" where
  "answers env pre [] = []"
| "answers env pre (c # cs) = (c, env pre c) # answers env (pre @ [c]) cs"

text \<open>The login probe of a run was answered, and the answer was not truthy.\<close>

definition pong_failed :: "(call \<times> (exn + json)) list \<Rightarrow> bool" where
  "pong_failed as =
     list_ex (\<lambda>a. case a of
                     (ClientPong client, Inr v) \<Rightarrow> \<not> truthy v
                   | _ \<Rightarrow> False) as"

subsection \<open>Example worlds\<close>

text \<open>
  A cooperative world: the cookie file has a record, the login probe succeeds, every other
  call returns. A world whose login probe fails. A world whose pages no longer answer.
\<close>

definition env_ok :: env where
  "env_ok tr c =
     (case c of
        CookieManagerGet dir platform \<Rightarrow> Inr (JStr ''a=1; web_session=x'')
      | CookieManagerSave dir platform cookie_str \<Rightarrow> Inr (JBool True)
      | ContextCookies context urls \<Rightarrow> Inr (JStr ''a=1; web_session=x'')
      | ClientPong client \<Rightarrow> Inr (JBool True)
      | PageTitle page \<Rightarrow> Inr (JStr ''Explore'')
      | _ \<Rightarrow> Inr JNull)"

definition env_expired :: env where
  "env_expired tr c =
     (case c of
        ClientPong client \<Rightarrow> Inr (JBool False)
      | _ \<Rightarrow> env_ok tr c)"

definition env_page_dead :: env where
  "env_page_dead tr c =
     (case c of
        PageTitle page \<Rightarrow> Inl (Raised ''Target page, context or browser has been closed'')
      | _ \<Rightarrow> env_ok tr c)"

definition cfg0 :: config where
  "cfg0 = \<lparr>COOKIES = JStr [], COOKIES_DIR = ''./cookies''\<rparr>"

text \<open>The session a first \<open>get_session("xhs", headless=True)\<close> creates in the cooperative world.\<close>

definition session0 :: browser_session where
  "session0 = \<lparr>s_platform = ''xhs'', s_playwright = 1, s_browser = 2, s_context = 3, s_page = 6,
               s_client = 10, s_cookie_str = JStr ''a=1; web_session=x'',
               s_is_logged_in = JBool True\<rparr>"

text \<open>The state of the manager and the trace after that first call.\<close>

definition sessions0 :: sessions where
  "sessions0 = fst (snd (get_session env_ok cfg0 Map.empty ''xhs'' True None False []))"

definition trace0 :: "call list" where
  "trace0 = snd (snd (get_session env_ok cfg0 Map.empty ''xhs'' True None False []))"

text \<open>Calls that neither start a login nor probe it.\<close>

fun quiet :: "call \<Rightarrow> bool" where
  "quiet (LoginNew platform cookie_str) = False"
| "quiet (LoginBegin login_obj) = False"
| "quiet (ClientPong client) = False"
| "quiet c = True"

text \<open>The last call of a run is the export of the context's cookies, and it raised \<open>e\<close>.\<close>

definition final_export_raised :: "env \<Rightarrow> call list \<Rightarrow> call list \<Rightarrow> exn \<Rightarrow> bool" where
  "final_export_raised env tr new e =
     (new \<noteq> [] \<and> (case last new of ContextCookies context urls \<Rightarrow> urls = [] | _ \<Rightarrow> False)
      \<and> env (tr @ butlast new) (last new) = Inl e)"


section \<open>XhsSignalAdapter (adapters/xhs/adapter.py)\<close>

text \<open>\<open>ToolResult\<close> (adapters/base.py); \<open>data\<close> and \<open>error\<close> default to \<open>None\<close>.\<close>

record tool_result =
  success :: bool
  data :: json
  error :: "string option"
  metadata :: "(string \<times> json) list"

text \<open>The result of every \<open>except Exception as e\<close> clause at the end of an operation.\<close>

definition failure :: "string \<Rightarrow> tool_result" where
  "failure msg = \<lparr>success = False, data = JNull, error = Some msg,
                   metadata = [(''platform'', JStr ''xhs'')]\<rparr>"

text \<open>Sequencing of steps that may raise.\<close>

definition bind_exn :: "exn + 'a \<Rightarrow> ('a \<Rightarrow> exn + 'b) \<Rightarrow> exn + 'b" where
  "bind_exn r f = (case r of Inl e \<Rightarrow> Inl e | Inr x \<Rightarrow> f x)"

text \<open>\<open>_get_cookie\<close>: the cookie of the cookie manager, else \<open>config.COOKIES\<close>.\<close>

definition adapter_get_cookie :: "env \<Rightarrow> config \<Rightarrow> string option \<Rightarrow> json io" where
  "adapter_get_cookie env cfg cookies_dir =
     io_bind (ext env (CookieManagerGet (cookie_dir cfg cookies_dir) ''xhs'')) (\<lambda>cookie_str.
     io_ret (if \<not> truthy cookie_str then COOKIES cfg else cookie_str))"

text \<open>
  The check at the head of \<open>search_notes\<close>: a session that is not logged in, no cookie and
  headless mode end the operation with a failure result (\<open>Some\<close>); otherwise it goes on.
\<close>

definition no_cookies_message :: string where
  "no_cookies_message = ''No cookies found and headless mode enabled. Please add cookies to cookies/xhs_cookies.txt or run with headless=False for QR login.''"

definition check_login ::
  "env \<Rightarrow> config \<Rightarrow> bool \<Rightarrow> string option \<Rightarrow> browser_session \<Rightarrow> tool_result option io" where
  "check_login env cfg headless cookies_dir session =
     (if \<not> truthy (s_is_logged_in session)
      then io_bind (adapter_get_cookie env cfg cookies_dir) (\<lambda>cookie_str.
           if \<not> truthy cookie_str \<and> headless then io_ret (Some (failure no_cookies_message))
           else io_ret None)
      else io_ret None)"

text \<open>\<open>sort_type_map.get(sort_by, SearchSortType.GENERAL)\<close>\<close>

definition sort_type :: "string \<Rightarrow> SearchSortType" where
  "sort_type sort_by =
     (if sort_by = ''hot'' then MOST_POPULAR else if sort_by = ''time'' then LATEST else GENERAL)"

text \<open>\<open>[k.strip() for k in keywords.split(",")]\<close>\<close>

definition keyword_list :: "string \<Rightarrow> string list" where
  "keyword_list keywords = map strip (split_char CHR '','' keywords)"

text \<open>\<open>limit // len(keyword_list) if keyword_list else limit\<close>\<close>

definition limit_per_keyword :: "int \<Rightarrow> string list \<Rightarrow> int" where
  "limit_per_keyword limit kws = (if kws \<noteq> [] then limit div int (length kws) else limit)"

text \<open>
  The list comprehension that drops the \<open>rec_query\<close> and \<open>hot_query\<close> items; \<open>n.get\<close> raises
  on an item that is not a dictionary.
\<close>

fun filter_notes :: "json list \<Rightarrow> exn + json list" where
  "filter_notes [] = Inr []"
| "filter_notes (n # ns) =
     bind_exn (py_get n ''model_type'' JNull) (\<lambda>model_type.
     bind_exn (filter_notes ns) (\<lambda>rest.
     Inr (if model_type \<noteq> JStr ''rec_query'' \<and> model_type \<noteq> JStr ''hot_query'' then n # rest
          else rest)))"

text \<open>The dictionary appended to \<open>keyword_results\<close> for one note.\<close>

definition note_record :: "string \<Rightarrow> json \<Rightarrow> exn + json" where
  "note_record keyword note =
     bind_exn (py_get note ''note_card'' note) (\<lambda>note_card.
     bind_exn (py_get note_card ''user'' (JDict [])) (\<lambda>user_info.
     bind_exn (py_get note_card ''interact_info'' (JDict [])) (\<lambda>interact_info.
     bind_exn (py_get note ''id'' (JStr [])) (\<lambda>note_id.
     bind_exn (py_get note_card ''title'' (JStr [])) (\<lambda>title0.
     bind_exn (py_get note_card ''display_title'' title0) (\<lambda>title.
     bind_exn (py_get note_card ''desc'' (JStr [])) (\<lambda>desc.
     bind_exn (py_get user_info ''nick_name'' (JStr [])) (\<lambda>author0.
     bind_exn (py_get user_info ''nickname'' author0) (\<lambda>author.
     bind_exn (py_get user_info ''user_id'' (JStr [])) (\<lambda>author_id.
     bind_exn (py_get note_card ''liked_count'' (JInt 0)) (\<lambda>liked0.
     bind_exn (py_get interact_info ''liked_count'' liked0) (\<lambda>liked_count.
     bind_exn (py_get note_card ''collected_count'' (JInt 0)) (\<lambda>collected0.
     bind_exn (py_get interact_info ''collected_count'' collected0) (\<lambda>collected_count.
     bind_exn (py_get note_card ''comments_count'' (JInt 0)) (\<lambda>comment0.
     bind_exn (py_get interact_info ''comment_count'' comment0) (\<lambda>comment_count.
     bind_exn (py_get note_card ''type'' (JStr [])) (\<lambda>ty.
     bind_exn (py_get note ''xsec_token'' (JStr [])) (\<lambda>xsec_token.
     Inr (JDict [(''note_id'', note_id), (''title'', title), (''desc'', desc),
                 (''author'', author), (''author_id'', author_id),
                 (''liked_count'', liked_count), (''collected_count'', collected_count),
                 (''comment_count'', comment_count), (''type'', ty),
                 (''keyword'', JStr keyword), (''xsec_token'', xsec_token)])))))))))))))))))))"

text \<open>
  \<open>for note in notes\<close>: stops when the keyword has its share; an exception leaves the notes
  appended so far in \<open>keyword_results\<close>.
\<close>

fun append_notes :: "string \<Rightarrow> int \<Rightarrow> json list \<Rightarrow> json list \<Rightarrow> json list \<times> exn option" where
  "append_notes keyword lim [] keyword_results = (keyword_results, None)"
| "append_notes keyword lim (note # notes) keyword_results =
     (if lim \<le> int (length keyword_results) then (keyword_results, None)
      else (case note_record keyword note of
              Inl e \<Rightarrow> (keyword_results, Some e)
            | Inr r \<Rightarrow> append_notes keyword lim notes (keyword_results @ [r])))"

text \<open>
  One run of the body of \<open>while len(keyword_results) < limit_per_keyword\<close>, with its
  \<open>try\<close>: every exception ends the loop (\<open>break\<close>) like an empty answer does.
\<close>

datatype loop_step = Break "json list" | Continue "json list"

definition keyword_step ::
  "env \<Rightarrow> nat \<Rightarrow> string \<Rightarrow> SearchSortType \<Rightarrow> int \<Rightarrow> int \<Rightarrow> json list \<Rightarrow> call list
     \<Rightarrow> loop_step \<times> call list" where
  "keyword_step env client keyword sort_ty lim page keyword_results tr =
     (case ext env (GetNoteByKeyword client keyword page sort_ty) tr of
        (Inl e, tr') \<Rightarrow> (Break keyword_results, tr')
      | (Inr response, tr') \<Rightarrow>
          (if \<not> truthy response then (Break keyword_results, tr')
           else (case py_get response ''items'' (JList []) of
                   Inl e \<Rightarrow> (Break keyword_results, tr')
                 | Inr items \<Rightarrow>
                     (if \<not> truthy items then (Break keyword_results, tr')
                      else (case bind_exn (py_iter items) filter_notes of
                              Inl e \<Rightarrow> (Break keyword_results, tr')
                            | Inr notes \<Rightarrow>
                                (case append_notes keyword lim notes keyword_results of
                                   (keyword_results', Some e) \<Rightarrow> (Break keyword_results', tr')
                                 | (keyword_results', None) \<Rightarrow>
                                     (case py_get response ''has_more'' (JBool False) of
                                        Inl e \<Rightarrow> (Break keyword_results', tr')
                                      | Inr has_more \<Rightarrow>
                                          (if \<not> truthy has_more then (Break keyword_results', tr')
                                           else (Continue keyword_results', tr' @ [Sleep 2])))))))))"

text \<open>The \<open>while\<close> loop of one keyword. It need not end: \<open>None\<close> is a run that never leaves it.\<close>

partial_function (option) keyword_loop ::
  "env \<Rightarrow> nat \<Rightarrow> string \<Rightarrow> SearchSortType \<Rightarrow> int \<Rightarrow> int \<Rightarrow> json list \<Rightarrow> call list
     \<Rightarrow> (json list \<times> call list) option" where
  "keyword_loop env client keyword sort_ty lim page keyword_results tr =
     (if int (length keyword_results) < lim
      then (case keyword_step env client keyword sort_ty lim page keyword_results tr of
              (Break keyword_results', tr') \<Rightarrow> Some (keyword_results', tr')
            | (Continue keyword_results', tr') \<Rightarrow>
                keyword_loop env client keyword sort_ty lim (page + 1) keyword_results' tr')
      else Some (keyword_results, tr))"

declare keyword_loop.simps [code]

text \<open>\<open>for keyword in keyword_list\<close>, with \<open>results.extend(keyword_results)\<close>.\<close>

fun search_keywords ::
  "env \<Rightarrow> nat \<Rightarrow> SearchSortType \<Rightarrow> int \<Rightarrow> string list \<Rightarrow> json list \<Rightarrow> call list
     \<Rightarrow> (json list \<times> call list) option" where
  "search_keywords env client sort_ty lim [] results tr = Some (results, tr)"
| "search_keywords env client sort_ty lim (keyword # keywords) results tr =
     (case keyword_loop env client keyword sort_ty lim 1 [] tr of
        None \<Rightarrow> None
      | Some (keyword_results, tr') \<Rightarrow>
          search_keywords env client sort_ty lim keywords (results @ keyword_results) tr')"

text \<open>The part of \<open>search_notes\<close> after the loops: truncation, optional saving, the result.\<close>

definition search_result ::
  "env \<Rightarrow> string list \<Rightarrow> int \<Rightarrow> bool \<Rightarrow> json list \<Rightarrow> tool_result io" where
  "search_result env kws limit save_results results =
     (let final_results = py_take results limit in
      io_bind (if save_results \<and> final_results \<noteq> []
               then ext env (SaveJson (JList final_results)
                                      (''search_'' @ join_char CHR ''_'' (take 2 kws)) ''notes'')
               else io_ret JNull) (\<lambda>saved_path.
      io_ret \<lparr>success = True, data = JList final_results, error = None,
              metadata = [(''total'', JInt (int (length final_results))),
                          (''keywords'', JList (map JStr kws)),
                          (''platform'', JStr ''xhs''),
                          (''saved_path'', saved_path)]\<rparr>))"

text \<open>
  The body of the \<open>try\<close> of \<open>search_notes\<close>: a result or the exception that leaves it, the
  manager's sessions and the trace; \<open>None\<close> when a keyword's loop never ends.
\<close>

definition search_notes_body ::
  "env \<Rightarrow> config \<Rightarrow> sessions \<Rightarrow> bool \<Rightarrow> string option \<Rightarrow> string \<Rightarrow> int \<Rightarrow> string \<Rightarrow> bool
     \<Rightarrow> call list \<Rightarrow> ((exn + tool_result) \<times> sessions \<times> call list) option" where
  "search_notes_body env cfg ss headless cookies_dir keywords limit sort_by save_results tr =
     (case get_session env cfg ss ''xhs'' headless cookies_dir False tr of
        (Inl e, ss1, tr1) \<Rightarrow> Some (Inl e, ss1, tr1)
      | (Inr session, ss1, tr1) \<Rightarrow>
          (case check_login env cfg headless cookies_dir session tr1 of
             (Inl e, tr2) \<Rightarrow> Some (Inl e, ss1, tr2)
           | (Inr (Some refused), tr2) \<Rightarrow> Some (Inr refused, ss1, tr2)
           | (Inr None, tr2) \<Rightarrow>
               (let kws = keyword_list keywords;
                    lim = limit_per_keyword limit kws
                in case search_keywords env (s_client session) (sort_type sort_by) lim kws [] tr2 of
                     None \<Rightarrow> None
                   | Some (results, tr3) \<Rightarrow>
                       (case search_result env kws limit save_results results tr3 of
                          (r, tr4) \<Rightarrow> Some (r, ss1, tr4)))))"

text \<open>The outermost handler, shared by the four operations: \<open>error=str(e)\<close>.\<close>

definition handle_exn :: "exn + tool_result \<Rightarrow> tool_result" where
  "handle_exn r = (case r of Inl e \<Rightarrow> failure (str_exn e) | Inr t \<Rightarrow> t)"

definition search_notes ::
  "env \<Rightarrow> config \<Rightarrow> sessions \<Rightarrow> bool \<Rightarrow> string option \<Rightarrow> string \<Rightarrow> int \<Rightarrow> string \<Rightarrow> bool
     \<Rightarrow> call list \<Rightarrow> (tool_result \<times> sessions \<times> call list) option" where
  "search_notes env cfg ss headless cookies_dir keywords limit sort_by save_results tr =
     map_option (\<lambda>(r, ss', tr'). (handle_exn r, ss', tr'))
       (search_notes_body env cfg ss headless cookies_dir keywords limit sort_by save_results tr)"


text \<open>The \<open>keyword_results\<close> a run of the loop body leaves.\<close>

definition step_results :: "loop_step \<Rightarrow> json list" where
  "step_results st = (case st of Break kr \<Rightarrow> kr | Continue kr \<Rightarrow> kr)"

subsection \<open>Example worlds for the search\<close>

text \<open>
  A client that raises for the keyword \<open>bad\<close>, raises on the second page of the keyword
  \<open>late\<close>, and otherwise serves two pages of four items, the second item a \<open>rec_query\<close>;
  everything else as in the cooperative world.
\<close>

definition env_search :: env where
  "env_search tr c =
     (case c of
        GetNoteByKeyword client keyword page sort_ty \<Rightarrow>
          (if keyword = ''bad'' \<or> (keyword = ''late'' \<and> page = 2) then Inl (Raised ''boom'')
           else Inr (JDict [(''items'', JList [JDict [(''id'', JStr ''n1''), (''model_type'', JStr ''note'')],
                                              JDict [(''id'', JStr ''q''), (''model_type'', JStr ''rec_query'')],
                                              JDict [(''id'', JStr ''n2'')],
                                              JDict [(''id'', JStr ''n3'')]]),
                            (''has_more'', JBool (page < 2))]))
      | _ \<Rightarrow> env_ok tr c)"

text \<open>A world without any cookie, in which the login probe fails.\<close>

definition env_no_cookie :: env where
  "env_no_cookie tr c =
     (case c of
        CookieManagerGet dir platform \<Rightarrow> Inr (JStr [])
      | ContextCookies context urls \<Rightarrow> Inr (JStr [])
      | ClientPong client \<Rightarrow> Inr (JBool False)
      | _ \<Rightarrow> env_ok tr c)"





section \<open>The other operations of the adapter\<close>

text \<open>
  \<open>parse_note_info_from_note_url\<close> (platforms/xhs/help.py) is not part of the sources at hand.
  It is a collaborator like the client: the world answers the call. Its result, a
  \<open>NoteUrlInfo\<close>, is read as an object with the two string attributes \<open>note_id\<close> and
  \<open>xsec_token\<close>; an answer of any other shape counts as the helper raising.
\<close>

definition note_url_info :: "json \<Rightarrow> exn + string \<times> string" where
  "note_url_info v =
     (case v of
        JDict kvs \<Rightarrow>
          (case (map_of kvs ''note_id'', map_of kvs ''xsec_token'') of
             (Some (JStr note_id), Some (JStr xsec_token)) \<Rightarrow> Inr (note_id, xsec_token)
           | _ \<Rightarrow> Inl (ValueError ''NoteUrlInfo''))
      | _ \<Rightarrow> Inl (ValueError ''NoteUrlInfo''))"

text \<open>
  The head of \<open>get_note_detail\<close> and \<open>get_note_comments\<close>: a URL is resolved to the note id,
  and to the token of the URL when the caller gave none.
\<close>

definition resolve_note_url :: "env \<Rightarrow> string \<Rightarrow> string \<Rightarrow> (string \<times> string) io" where
  "resolve_note_url env note_id xsec_token =
     (if is_substring ''xiaohongshu.com'' note_id \<or> is_substring ''xhslink.com'' note_id
      then io_bind (ext env (ParseNoteUrl note_id)) (\<lambda>answer.
           io_bind (io_lift (note_url_info answer)) (\<lambda>(url_note_id, url_xsec_token).
           io_ret (url_note_id,
                   if xsec_token = [] \<and> url_xsec_token \<noteq> [] then url_xsec_token else xsec_token)))
      else io_ret (note_id, xsec_token))"

text \<open>\<open>d.get(k1, {}).get(k2, dflt)\<close>\<close>

definition py_get2 :: "json \<Rightarrow> string \<Rightarrow> string \<Rightarrow> json \<Rightarrow> exn + json" where
  "py_get2 d k1 k2 dflt = bind_exn (py_get d k1 (JDict [])) (\<lambda>inner. py_get inner k2 dflt)"


subsection \<open>\<open>get_note_comments\<close>\<close>

text \<open>The dictionary appended to \<open>comments\<close> for one comment.\<close>

definition comment_record :: "json \<Rightarrow> exn + json" where
  "comment_record comment =
     bind_exn (py_get comment ''id'' (JStr [])) (\<lambda>comment_id.
     bind_exn (py_get comment ''content'' (JStr [])) (\<lambda>content.
     bind_exn (py_get2 comment ''user_info'' ''nickname'' (JStr [])) (\<lambda>author.
     bind_exn (py_get2 comment ''user_info'' ''user_id'' (JStr [])) (\<lambda>author_id.
     bind_exn (py_get comment ''like_count'' (JInt 0)) (\<lambda>liked_count.
     bind_exn (py_get comment ''create_time'' (JStr [])) (\<lambda>create_time.
     bind_exn (py_get comment ''sub_comment_count'' (JInt 0)) (\<lambda>sub_comment_count.
     Inr (JDict [(''comment_id'', comment_id), (''content'', content), (''author'', author),
                 (''author_id'', author_id), (''liked_count'', liked_count),
                 (''create_time'', create_time),
                 (''sub_comment_count'', sub_comment_count)]))))))))"

text \<open>\<open>for comment in ...: comments.append(...)\<close>: the whole page, with no look at the limit.\<close>

fun append_comments :: "json list \<Rightarrow> json list \<Rightarrow> exn + json list" where
  "append_comments [] comments = Inr comments"
| "append_comments (comment # page_comments) comments =
     bind_exn (comment_record comment) (\<lambda>r. append_comments page_comments (comments @ [r]))"

text \<open>
  One run of the body of \<open>while len(comments) < limit\<close>: the comments and, when the loop goes
  on, the next cursor. There is no \<open>try\<close> in this loop: an exception leaves the operation's
  body.
\<close>

definition comments_step ::
  "env \<Rightarrow> nat \<Rightarrow> string \<Rightarrow> string \<Rightarrow> json \<Rightarrow> json list \<Rightarrow> (loop_step \<times> json) io" where
  "comments_step env client note_id xsec_token cursor comments =
     io_bind (ext env (GetNoteComments client note_id (JStr xsec_token) cursor)) (\<lambda>result.
     if \<not> truthy result then io_ret (Break comments, cursor)
     else io_bind (io_lift (py_contains ''comments'' result)) (\<lambda>has_comments.
          if \<not> has_comments then io_ret (Break comments, cursor)
          else io_bind (io_lift (py_get result ''comments'' (JList []))) (\<lambda>page_value.
               io_bind (io_lift (py_iter page_value)) (\<lambda>page_comments.
               io_bind (io_lift (append_comments page_comments comments)) (\<lambda>comments'.
               io_bind (io_lift (py_get result ''cursor'' (JStr []))) (\<lambda>cursor'.
               io_bind (io_lift (py_get result ''has_more'' (JBool False))) (\<lambda>has_more.
               if \<not> truthy has_more then io_ret (Break comments', cursor')
               else io_ret (Continue comments', cursor'))))))))"

text \<open>The \<open>while\<close> loop. \<open>None\<close> is a run that never leaves it.\<close>

partial_function (option) comments_loop ::
  "env \<Rightarrow> nat \<Rightarrow> string \<Rightarrow> string \<Rightarrow> int \<Rightarrow> json \<Rightarrow> json list \<Rightarrow> call list
     \<Rightarrow> ((exn + json list) \<times> call list) option" where
  "comments_loop env client note_id xsec_token limit cursor comments tr =
     (if int (length comments) < limit
      then (case comments_step env client note_id xsec_token cursor comments tr of
              (Inl e, tr') \<Rightarrow> Some (Inl e, tr')
            | (Inr (Break comments', cursor'), tr') \<Rightarrow> Some (Inr comments', tr')
            | (Inr (Continue comments', cursor'), tr') \<Rightarrow>
                comments_loop env client note_id xsec_token limit cursor' comments' tr')
      else Some (Inr comments, tr))"

declare comments_loop.simps [code]

text \<open>The result of \<open>get_note_comments\<close> once the loop has ended.\<close>

definition comments_result :: "string \<Rightarrow> int \<Rightarrow> json list \<Rightarrow> tool_result" where
  "comments_result note_id limit comments =
     \<lparr>success = True, data = JList (py_take comments limit), error = None,
      metadata = [(''total'', JInt (int (length comments))),
                  (''note_id'', JStr note_id),
                  (''platform'', JStr ''xhs'')]\<rparr>"

definition get_note_comments_body ::
  "env \<Rightarrow> config \<Rightarrow> sessions \<Rightarrow> bool \<Rightarrow> string option \<Rightarrow> string \<Rightarrow> int \<Rightarrow> string \<Rightarrow> call list
     \<Rightarrow> ((exn + tool_result) \<times> sessions \<times> call list) option" where
  "get_note_comments_body env cfg ss headless cookies_dir note_id0 limit xsec_token0 tr =
     (case resolve_note_url env note_id0 xsec_token0 tr of
        (Inl e, tr0) \<Rightarrow> Some (Inl e, ss, tr0)
      | (Inr (note_id, xsec_token), tr0) \<Rightarrow>
          (case get_session env cfg ss ''xhs'' headless cookies_dir False tr0 of
             (Inl e, ss1, tr1) \<Rightarrow> Some (Inl e, ss1, tr1)
           | (Inr session, ss1, tr1) \<Rightarrow>
               (case comments_loop env (s_client session) note_id xsec_token limit (JStr []) [] tr1 of
                  None \<Rightarrow> None
                | Some (Inl e, tr2) \<Rightarrow> Some (Inl e, ss1, tr2)
                | Some (Inr comments, tr2) \<Rightarrow>
                    Some (Inr (comments_result note_id limit comments), ss1, tr2))))"

definition get_note_comments ::
  "env \<Rightarrow> config \<Rightarrow> sessions \<Rightarrow> bool \<Rightarrow> string option \<Rightarrow> string \<Rightarrow> int \<Rightarrow> string \<Rightarrow> call list
     \<Rightarrow> (tool_result \<times> sessions \<times> call list) option" where
  "get_note_comments env cfg ss headless cookies_dir note_id limit xsec_token tr =
     map_option (\<lambda>(r, ss', tr'). (handle_exn r, ss', tr'))
       (get_note_comments_body env cfg ss headless cookies_dir note_id limit xsec_token tr)"


subsection \<open>Example worlds for the comments\<close>

text \<open>
  A client whose every page of comments holds three comments and says there are more; the URL
  helper resolves every URL to the note \<open>n42\<close> with the token \<open>tok\<close>.
\<close>

definition env_comments :: env where
  "env_comments tr c =
     (case c of
        GetNoteComments client note_id xsec_token cursor \<Rightarrow>
          Inr (JDict [(''comments'', JList [JDict [(''id'', JStr ''c1''), (''content'', JStr ''nice'')],
                                            JDict [(''id'', JStr ''c2''),
                                                   (''user_info'', JDict [(''nickname'', JStr ''bo'')])],
                                            JDict [(''id'', JStr ''c3'')]]),
                      (''cursor'', JStr ''next''),
                      (''has_more'', JBool True)])
      | ParseNoteUrl url \<Rightarrow> Inr (JDict [(''note_id'', JStr ''n42''), (''xsec_token'', JStr ''tok'')])
      | _ \<Rightarrow> env_ok tr c)"


(*DEFS-END*)

section \<open>Properties of the cookie store\<close>

subsection \<open>Lines, splitting and stripping\<close>

lemma universal_newlines_no_CR: "CR \<notin> set (universal_newlines s)"
  by (induction s rule: universal_newlines.induct) (auto simp: CR_def LF_def)

lemma universal_newlines_id: "CR \<notin> set s \<Longrightarrow> universal_newlines s = s"
  by (induction s rule: universal_newlines.induct) auto

lemma split_char_nonempty: "split_char c s \<noteq> []"
  by (induction s) (auto split: list.splits)

lemma split_char_free: "p \<in> set (split_char c s) \<Longrightarrow> c \<notin> set p \<and> set p \<subseteq> set s"
proof (induction s arbitrary: p)
  case Nil
  then show ?case by simp
next
  case (Cons a s)
  obtain q qs where q: "split_char c s = q # qs"
    using split_char_nonempty[of c s] by (cases "split_char c s") auto
  have IH: "\<And>r. r \<in> set (q # qs) \<Longrightarrow> c \<notin> set r \<and> set r \<subseteq> set s"
    using Cons.IH q by simp
  show ?case
  proof (cases "a = c")
    case True
    then show ?thesis using Cons.prems IH q by auto
  next
    case False
    then have "p = a # q \<or> p \<in> set qs" using Cons.prems q by auto
    then show ?thesis using IH False by fastforce
  qed
qed

lemma split_char_single: "c \<notin> set p \<Longrightarrow> split_char c p = [p]"
  by (induction p) auto

lemma split_char_append: "c \<notin> set p \<Longrightarrow> split_char c (p @ c # rest) = p # split_char c rest"
  by (induction p) (auto split: list.splits)

lemma split_join: "ls \<noteq> [] \<Longrightarrow> \<forall>l\<in>set ls. c \<notin> set l \<Longrightarrow> split_char c (join_char c ls) = ls"
  by (induction c ls rule: join_char.induct) (auto simp: split_char_single split_char_append)

lemma join_snoc: "ls \<noteq> [] \<Longrightarrow> join_char c (ls @ [p]) = join_char c ls @ c # p"
  by (induction c ls rule: join_char.induct) auto

lemma set_join: "set (join_char c ls) \<subseteq> insert c (\<Union>(set ` set ls))"
  by (induction c ls rule: join_char.induct) auto

lemma file_lines_join:
  assumes "ls \<noteq> []" and "\<forall>l\<in>set ls. LF \<notin> set l \<and> CR \<notin> set l"
  shows "file_lines (join_char LF ls @ [LF]) = ls"
proof -
  have "CR \<notin> set (join_char LF ls @ [LF])"
    using set_join[of LF ls] assms(2) by (auto simp: CR_def LF_def)
  then have u: "universal_newlines (join_char LF ls @ [LF]) = join_char LF ls @ [LF]"
    by (rule universal_newlines_id)
  have "join_char LF ls @ [LF] = join_char LF (ls @ [[]])"
    using assms(1) by (simp add: join_snoc)
  moreover have "split_char LF (join_char LF (ls @ [[]])) = ls @ [[]]"
    by (rule split_join) (use assms in auto)
  ultimately show ?thesis
    using u by (simp add: file_lines_def)
qed

lemma file_lines_free: "l \<in> set (file_lines content) \<Longrightarrow> LF \<notin> set l \<and> CR \<notin> set l"
proof -
  assume "l \<in> set (file_lines content)"
  then have "l \<in> set (split_char LF (universal_newlines content))"
    by (auto simp: file_lines_def Let_def split: if_splits dest: in_set_butlastD)
  then show ?thesis
    using split_char_free[of l LF "universal_newlines content"] universal_newlines_no_CR[of content]
    by auto
qed


lemma strip_idem: "strip (strip s) = strip s"
proof -
  define t where "t = dropWhile is_space s"
  define u where "u = dropWhile is_space (rev t)"
  have su: "strip s = rev u" by (simp add: strip_def t_def u_def)
  have "dropWhile is_space (rev u) = rev u"
  proof (cases "u = []")
    case True
    then show ?thesis by simp
  next
    case False
    have "rev t = takeWhile is_space (rev t) @ u" by (simp add: u_def)
    then have "last u = last (rev t)" using False by (metis last_appendR)
    moreover have "t \<noteq> []" using False u_def by auto
    ultimately have "last u = hd t" by (simp add: last_rev)
    moreover have "\<not> is_space (hd t)" using \<open>t \<noteq> []\<close> unfolding t_def by (rule hd_dropWhile)
    ultimately have "\<not> is_space (hd (rev u))" using False by (simp add: hd_rev)
    then show ?thesis by (simp add: dropWhile_eq_self_iff)
  qed
  moreover have "dropWhile is_space u = u" by (simp add: u_def)
  ultimately show ?thesis by (simp add: su) (simp add: strip_def)
qed

lemma strip_first: "\<not> is_space c \<Longrightarrow> \<exists>ys. strip (c # cs) = c # ys"
  by (simp add: strip_def dropWhile_append3)

lemma filter_upt_first:
  assumes "filter Q [0..<n] = t # rest"
  shows "t < n \<and> Q t \<and> (\<forall>j<t. \<not> Q j)"
proof -
  obtain us vs where d: "[0..<n] = us @ t # vs" and n: "\<forall>u\<in>set us. \<not> Q u" and q: "Q t"
    using assms by (auto simp: filter_eq_Cons_iff)
  have len: "length us < n" using arg_cong[OF d, of length] by simp
  have "[0..<n] ! length us = t" by (simp add: d)
  then have t: "t = length us" using len by simp
  have "us = take t [0..<n]" by (simp add: d t)
  then have "us = [0..<t]" using len t by (simp add: take_upt)
  then have "set us = {0..<t}" by (metis atLeastLessThan_upt)
  then show ?thesis using n q len t by auto
qed

lemma first_cookie_after_update:
  assumes "t < length lines" and "\<forall>j<t. \<not> is_cookie_line (strip (lines ! j))"
      and "is_cookie_line (strip s')"
  shows "filter is_cookie_line (map strip (lines[t := s'])) ! 0 = strip s'
       \<and> filter is_cookie_line (map strip (lines[t := s'])) \<noteq> []"
proof -
  have "filter is_cookie_line (map strip (take t lines)) = []"
    using assms(1,2) by (auto simp: filter_empty_conv in_set_conv_nth)
  moreover have "lines[t := s'] = take t lines @ s' # drop (Suc t) lines"
    using assms(1) by (rule upd_conv_take_nth_drop)
  ultimately show ?thesis using assms(3) by simp
qed

lemma no_cookie_lines:
  assumes "cookie_lines_indices lines = []"
  shows "filter is_cookie_line (map strip lines) = []"
  using assms by (auto simp: cookie_lines_indices_def filter_empty_conv in_set_conv_nth)

lemma comment_not_cookie: "\<not> is_cookie_line (strip (CHR ''#'' # cs))"
proof -
  have "\<not> is_space CHR ''#''" by (simp add: is_space_def)
  then obtain ys where "strip (CHR ''#'' # cs) = CHR ''#'' # ys" using strip_first by blast
  then show ?thesis by (simp add: is_cookie_line_def)
qed

lemma empty_not_cookie: "\<not> is_cookie_line (strip [])"
  by (simp add: is_cookie_line_def strip_def)


lemma save_cookie_first_record:
  assumes ck: "is_cookie_line (strip s)" and nl: "LF \<notin> set (strip s)" "CR \<notin> set (strip s)"
  shows "\<exists>ls. save_cookie cm platform s 0 =
            (True, cm\<lparr>files := (files cm)(get_cookie_file platform \<mapsto> join_char LF ls @ [LF]),
                      cache := (cache cm)(lower platform := None)\<rparr>)
          \<and> file_lines (join_char LF ls @ [LF]) = ls
          \<and> filter is_cookie_line (map strip ls) \<noteq> []
          \<and> filter is_cookie_line (map strip ls) ! 0 = strip s"
proof -
  define lines where
    "lines = (case files cm (get_cookie_file platform) of None \<Rightarrow> [] | Some content \<Rightarrow> file_lines content)"
  define idxs where "idxs = cookie_lines_indices lines"
  have ne: "s \<noteq> []" "strip s \<noteq> []"
    using ck by (auto simp: is_cookie_line_def strip_def)
  have free: "\<forall>l\<in>set lines. LF \<notin> set l \<and> CR \<notin> set l"
    by (auto simp: lines_def dest: file_lines_free split: option.splits)
  have ck': "is_cookie_line (strip (strip s))" using ck by (simp add: strip_idem)
  show ?thesis
  proof (cases idxs)
    case Nil
    define pre where "pre = (if lines \<noteq> [] \<and> last lines \<noteq> [] then lines @ [[]] else lines)"
    define ls where "ls = pre @ [''# Account '' @ str_nat (length idxs + 1) @ '' - Auto-saved after login'', strip s]"
    have sv: "save_cookie cm platform s 0 =
            (True, cm\<lparr>files := (files cm)(get_cookie_file platform \<mapsto> join_char LF ls @ [LF]),
                      cache := (cache cm)(lower platform := None)\<rparr>)"
      using ne Nil unfolding save_cookie_def Let_def ls_def pre_def
      by (simp add: lines_def[symmetric] idxs_def[symmetric])
    have "filter is_cookie_line (map strip lines) = []"
      using Nil by (simp add: idxs_def no_cookie_lines)
    then have pre0: "filter is_cookie_line (map strip pre) = []"
      by (simp add: pre_def empty_not_cookie)
    have flt: "filter is_cookie_line (map strip ls) = [strip s]"
      using pre0 ck' comment_not_cookie by (simp add: ls_def strip_idem)
    have cfree: "LF \<notin> set (''# Account '' @ str_nat (0 + 1) @ '' - Auto-saved after login'')
               \<and> CR \<notin> set (''# Account '' @ str_nat (0 + 1) @ '' - Auto-saved after login'')"
      by code_simp
    have "\<forall>l\<in>set pre. LF \<notin> set l \<and> CR \<notin> set l"
      using free by (auto simp: pre_def)
    then have "\<forall>l\<in>set ls. LF \<notin> set l \<and> CR \<notin> set l"
      using nl Nil cfree by (simp add: ls_def)
    moreover have "ls \<noteq> []" by (simp add: ls_def)
    ultimately have "file_lines (join_char LF ls @ [LF]) = ls"
      by (simp add: file_lines_join)
    then show ?thesis using sv flt by auto
  next
    case (Cons t rest)
    define ls where "ls = lines[t := strip s]"
    have pi: "py_index idxs 0 = Some t"
      using Cons by (simp add: py_index_def)
    have t: "t < length lines \<and> is_cookie_line (strip (lines ! t)) \<and> (\<forall>j<t. \<not> is_cookie_line (strip (lines ! j)))"
      by (rule filter_upt_first[OF Cons[unfolded idxs_def cookie_lines_indices_def]])
    have lne: "lines \<noteq> []" using t by fastforce
    have sv: "save_cookie cm platform s 0 =
            (True, cm\<lparr>files := (files cm)(get_cookie_file platform \<mapsto> join_char LF ls @ [LF]),
                      cache := (cache cm)(lower platform := None)\<rparr>)"
      using ne Cons pi lne unfolding save_cookie_def Let_def ls_def
      by (simp add: lines_def[symmetric] idxs_def[symmetric])
    have flt: "filter is_cookie_line (map strip ls) ! 0 = strip (strip s)
         \<and> filter is_cookie_line (map strip ls) \<noteq> []"
      unfolding ls_def using ck' t by (intro first_cookie_after_update) auto
    have "\<forall>l\<in>set ls. LF \<notin> set l \<and> CR \<notin> set l"
      using free nl by (auto simp: ls_def dest!: set_update_subset_insert[THEN subsetD])
    moreover have "ls \<noteq> []" using t by (auto simp: ls_def)
    ultimately have "file_lines (join_char LF ls @ [LF]) = ls"
      by (simp add: file_lines_join)
    then show ?thesis using sv flt by (auto simp: strip_idem)
  qed
qed

subsection \<open>Account selection\<close>

lemma get_cookie_out_of_range:
  "\<not> (0 \<le> i \<and> i < int (length (fst (get_all_cookies cm platform)))) \<Longrightarrow>
     fst (get_cookie cm platform (Some i) random_select pick) = []"
  by (cases "get_all_cookies cm platform") (auto simp: get_cookie_def)

text \<open>
  C8: for a platform with at least one stored cookie record, \<open>get_cookie\<close> with a negative
  \<open>account_index\<close> returns the empty string, the same result as for an index past the end;
  the record counted from the end of the list is never returned.
\<close>

theorem get_cookie_negative_index:
  assumes "fst (get_all_cookies cm platform) \<noteq> []" and "i < 0"
      and "int (length (fst (get_all_cookies cm platform))) \<le> j"
  shows "fst (get_cookie cm platform (Some i) random_select pick) = []
       \<and> fst (get_cookie cm platform (Some i) random_select pick)
           = fst (get_cookie cm platform (Some j) random_select pick)"
  using assms by (simp add: get_cookie_out_of_range)

theorem get_cookie_negative_index_witness:
  "fst (get_all_cookies cm_one ''xhs'') = [''a=1; b=2'']
   \<and> fst (get_cookie cm_one ''xhs'' (Some (- 1)) False 0) = []
   \<and> fst (get_cookie cm_one ''xhs'' (Some (- 1)) False 0)
       = fst (get_cookie cm_one ''xhs'' (Some 1) False 0)"
proof -
  have h0: "fst (get_all_cookies cm_one ''xhs'') = [''a=1; b=2'']"
    by code_simp
  have h1: "fst (get_all_cookies cm_one ''xhs'') \<noteq> []"
    by (simp add: h0)
  have h3: "int (length (fst (get_all_cookies cm_one ''xhs''))) \<le> 1"
    by (simp add: h0)
  have h2: "(- 1 :: int) < 0"
    by simp
  show ?thesis
    using h0 get_cookie_negative_index[OF h1 h2 h3, of False 0] by blast
qed

subsection \<open>Saving and reading back\<close>

text \<open>
  \<open>strip\<close> and \<open>lower\<close> beyond ASCII: the no-break space and NEL are stripped, so a string
  that starts with a no-break space and then \<open>#\<close> is saved as a comment line and not read
  back; a capital letter of the Latin-1 range is lowered, so a platform name with such a letter
  is saved to one file and read from another.
\<close>

lemma strip_latin1_whitespace:
  "strip ([CHR 0xA0] @ ''#a=1'' @ [CHR 0x85]) = ''#a=1''"
  by code_simp

lemma lower_latin1:
  "lower [CHR 0xC0, CHR 0xD7, CHR 0xDE, CHR ''A''] = [CHR 0xE0, CHR 0xD7, CHR 0xFE, CHR ''a'']"
  by code_simp

lemma no_break_space_comment_not_read_back:
  "fst (save_cookie cm_empty ''xhs'' ([CHR 0xA0] @ ''#a=1'') 0)
   \<and> fst (get_cookie (snd (save_cookie cm_empty ''xhs'' ([CHR 0xA0] @ ''#a=1'') 0)) ''xhs'' (Some 0) False 0) = []"
  by code_simp

lemma latin1_platform_other_file:
  "get_cookie_file (lower [CHR 0xC0]) \<noteq> get_cookie_file [CHR 0xC0]"
  by code_simp

text \<open>
  C6 as stated fails: a non-empty string whose stripped form has no \<open>=\<close> is written to the
  file by \<open>save_cookie\<close>, but \<open>_load_cookies_from_file\<close> does not count such a line as a
  record, so \<open>get_cookie\<close> returns the empty string and not \<open>s.strip()\<close>.
\<close>

theorem save_cookie_roundtrip_counterexample:
  "''abc'' \<noteq> []
   \<and> fst (save_cookie cm_empty ''xhs'' ''abc'' 0)
   \<and> fst (get_cookie (snd (save_cookie cm_empty ''xhs'' ''abc'' 0)) ''xhs'' (Some 0) False 0) = []
   \<and> strip ''abc'' = ''abc''"
  by code_simp

text \<open>
  C6, amended, for strings of characters with code points below 256: let \<open>s.strip()\<close> be a
  line the loader accepts as a record (non-empty, not starting with \<open>#\<close>, containing \<open>=\<close>)
  with no line break in it, and let the platform name
  select the same cookie file in \<open>save_cookie\<close> (which looks the name up as given) and in
  \<open>get_all_cookies\<close> (which looks up its lower-case form). Then \<open>save_cookie(P, s)\<close>
  returns \<open>True\<close> and a following \<open>get_cookie(P, account_index=0, random_select=False)\<close>
  returns exactly \<open>s.strip()\<close>, whatever the file and the cache held before.
\<close>

theorem save_cookie_get_cookie_roundtrip:
  assumes "is_cookie_line (strip s)" and "LF \<notin> set (strip s)" and "CR \<notin> set (strip s)"
      and "get_cookie_file (lower platform) = get_cookie_file platform"
  shows "fst (save_cookie cm platform s 0)
       \<and> fst (get_cookie (snd (save_cookie cm platform s 0)) platform (Some 0) False pick) = strip s"
proof -
  obtain ls where sv: "save_cookie cm platform s 0 =
            (True, cm\<lparr>files := (files cm)(get_cookie_file platform \<mapsto> join_char LF ls @ [LF]),
                      cache := (cache cm)(lower platform := None)\<rparr>)"
      and fl: "file_lines (join_char LF ls @ [LF]) = ls"
      and f1: "filter is_cookie_line (map strip ls) \<noteq> []"
      and f2: "filter is_cookie_line (map strip ls) ! 0 = strip s"
    using save_cookie_first_record[OF assms(1-3), of cm platform] by blast
  have "fst (get_all_cookies (snd (save_cookie cm platform s 0)) platform)
          = filter is_cookie_line (map strip ls)"
    by (simp add: sv get_all_cookies_def Let_def load_cookies_from_file_def assms(4) fl)
  moreover obtain cs cm' where g: "get_all_cookies (snd (save_cookie cm platform s 0)) platform = (cs, cm')"
    by (cases "get_all_cookies (snd (save_cookie cm platform s 0)) platform")
  ultimately have "cs = filter is_cookie_line (map strip ls)" by simp
  then have "cs \<noteq> []" and "cs ! 0 = strip s" using f1 f2 by metis+
  then have "fst (get_cookie (snd (save_cookie cm platform s 0)) platform (Some 0) False pick) = strip s"
    using g by (simp add: get_cookie_def)
  then show ?thesis by (simp add: sv)
qed

theorem save_cookie_get_cookie_roundtrip_witness:
  "is_cookie_line (strip '' c=3 '') \<and> LF \<notin> set (strip '' c=3 '') \<and> CR \<notin> set (strip '' c=3 '')
   \<and> get_cookie_file (lower ''xhs'') = get_cookie_file ''xhs''
   \<and> fst (save_cookie cm_one ''xhs'' '' c=3 '' 0)
   \<and> fst (get_cookie (snd (save_cookie cm_one ''xhs'' '' c=3 '' 0)) ''xhs'' (Some 0) False 7) = ''c=3''"
proof -
  have h1: "is_cookie_line (strip '' c=3 '')" by code_simp
  have h2: "LF \<notin> set (strip '' c=3 '')" by code_simp
  have h3: "CR \<notin> set (strip '' c=3 '')" by code_simp
  have h4: "get_cookie_file (lower ''xhs'') = get_cookie_file ''xhs''" by code_simp
  have h5: "strip '' c=3 '' = ''c=3''" by code_simp
  show ?thesis
    using h1 h2 h3 h4 save_cookie_get_cookie_roundtrip[OF h1 h2 h3 h4, of cm_one 7]
    unfolding h5 by blast
qed

section \<open>Properties of the session manager\<close>

lemma get_session_probe_ok:
  assumes "ss platform = Some session"
      and "env tr (PageTitle (s_page session)) = Inr title"
  shows "get_session env cfg ss platform headless cookies_dir False tr
       = (Inr session, ss, tr @ [PageTitle (s_page session)])"
  using assms by (simp add: get_session_def ext_def)

lemma first_session: "sessions0 ''xhs'' = Some session0"
  unfolding sessions0_def session0_def by code_simp

text \<open>
  Claim C4 (idempotent session reuse). If the manager holds a session for a platform and the
  health probe \<open>page.title()\<close> of that session answers at both calls, then two calls of
  \<open>get_session\<close> in a row, without \<open>force_new\<close> and whatever their other arguments,
  both return the stored session, leave the manager's sessions unchanged, and make no call on
  the outside world other than the two probes: no second browser is started.
\<close>

theorem get_session_reuse:
  assumes "ss platform = Some session"
      and "env tr (PageTitle (s_page session)) = Inr t1"
      and "env (tr @ [PageTitle (s_page session)]) (PageTitle (s_page session)) = Inr t2"
  shows "(case get_session env cfg ss platform headless cookies_dir False tr of
            (r1, ss1, tr1) \<Rightarrow>
              (case get_session env cfg ss1 platform headless' cookies_dir' False tr1 of
                 (r2, ss2, tr2) \<Rightarrow>
                   r1 = Inr session \<and> r2 = Inr session \<and> ss1 = ss \<and> ss2 = ss
                 \<and> tr2 = tr @ [PageTitle (s_page session), PageTitle (s_page session)]))"
  using assms by (simp add: get_session_probe_ok)

theorem get_session_reuse_witness:
  "sessions0 ''xhs'' = Some session0
   \<and> env_ok trace0 (PageTitle (s_page session0)) = Inr (JStr ''Explore'')
   \<and> env_ok (trace0 @ [PageTitle (s_page session0)]) (PageTitle (s_page session0)) = Inr (JStr ''Explore'')
   \<and> (case get_session env_ok cfg0 sessions0 ''xhs'' True None False trace0 of
         (r1, ss1, tr1) \<Rightarrow>
           (case get_session env_ok cfg0 ss1 ''xhs'' False (Some ''other'') False tr1 of
              (r2, ss2, tr2) \<Rightarrow>
                r1 = Inr session0 \<and> r2 = Inr session0 \<and> ss1 = sessions0 \<and> ss2 = sessions0
              \<and> tr2 = trace0 @ [PageTitle (s_page session0), PageTitle (s_page session0)]))"
proof -
  have h1: "sessions0 ''xhs'' = Some session0" by (rule first_session)
  have h2: "env_ok trace0 (PageTitle (s_page session0)) = Inr (JStr ''Explore'')"
    by (simp add: env_ok_def)
  have h3: "env_ok (trace0 @ [PageTitle (s_page session0)]) (PageTitle (s_page session0)) = Inr (JStr ''Explore'')"
    by (simp add: env_ok_def)
  have c: "(case get_session env_ok cfg0 sessions0 ''xhs'' True None False trace0 of
         (r1, ss1, tr1) \<Rightarrow>
           (case get_session env_ok cfg0 ss1 ''xhs'' False (Some ''other'') False tr1 of
              (r2, ss2, tr2) \<Rightarrow>
                r1 = Inr session0 \<and> r2 = Inr session0 \<and> ss1 = sessions0 \<and> ss2 = sessions0
              \<and> tr2 = trace0 @ [PageTitle (s_page session0), PageTitle (s_page session0)]))"
    by (rule get_session_reuse [where ss = sessions0 and platform = "''xhs''" and session = session0
      and env = env_ok and tr = trace0, OF h1 h2 h3])
  show ?thesis by (intro conjI h1 h2 h3 c)
qed

subsection \<open>Replacement of a live session\<close>

text \<open>
  When the probe of the stored session raises, \<open>get_session\<close> closes the browser and stops
  the driver of the displaced session before it creates the next one.
\<close>

lemma probe_failure_closes:
  "(case get_session env_page_dead cfg0 sessions0 ''xhs'' True None False trace0 of
      (r, ss', tr') \<Rightarrow>
        take 3 (drop (length trace0) tr') = [PageTitle (s_page session0), BrowserClose (s_browser session0), PlaywrightStop (s_playwright session0)])"
  unfolding sessions0_def trace0_def session0_def by code_simp

text \<open>
  Claim C5 (displaced session is closed on replacement), the \<open>force_new\<close> case. The manager
  holds the session \<open>session0\<close>, created by a first call. A second call with
  \<open>force_new = True\<close> returns and stores a session with another browser and another driver,
  and the whole trace contains no \<open>browser.close()\<close> and no \<open>playwright.stop()\<close>: the
  browser of \<open>session0\<close>, launched in the first call, is still open and no longer referenced.
\<close>

theorem force_new_leaves_browser_open:
  "(case get_session env_ok cfg0 sessions0 ''xhs'' True None True trace0 of
      (r, ss', tr') \<Rightarrow>
        (case r of
           Inr session \<Rightarrow>
             ss' ''xhs'' = Some session
           \<and> s_browser session \<noteq> s_browser session0
           \<and> s_playwright session \<noteq> s_playwright session0
         | Inl e \<Rightarrow> False)
      \<and> sessions0 ''xhs'' = Some session0
      \<and> ChromiumLaunch (s_playwright session0) True \<in> set trace0
      \<and> \<not> list_ex is_close_call tr')"
  unfolding sessions0_def trace0_def session0_def by code_simp


subsection \<open>Login in headless mode\<close>

lemmas io_defs = io_bind_def ext_def ext_h_def io_ret_def io_raise_def emit_def

lemma setup_xhs_headless:
  assumes "setup_xhs_client env dir context page cookie_str True tr = (r, tr')"
  shows "\<exists>new. tr' = tr @ new \<and> \<not> list_ex is_login_call new
           \<and> (pong_failed (answers env tr new) \<longrightarrow> (\<exists>client. r = Inr (client, JBool False)))"
  using assms
  by (auto simp: setup_xhs_client_def save_cookies_to_file_def io_defs pong_failed_def Let_def
           split: sum.splits if_splits)

lemma setup_weibo_headless:
  assumes "setup_weibo_client env dir context page cookie_str True tr = (r, tr')"
  shows "\<exists>new. tr' = tr @ new \<and> \<not> list_ex is_login_call new
           \<and> (pong_failed (answers env tr new) \<longrightarrow> (\<exists>client. r = Inr (client, JBool False)))"
  using assms
  by (auto simp: setup_weibo_client_def save_cookies_to_file_def io_defs pong_failed_def Let_def
           split: sum.splits if_splits)

lemma setup_douyin_headless:
  assumes "setup_douyin_client env dir context page cookie_str True tr = (r, tr')"
  shows "\<exists>new. tr' = tr @ new \<and> \<not> list_ex is_login_call new
           \<and> (pong_failed (answers env tr new) \<longrightarrow> (\<exists>client. r = Inr (client, JBool False)))"
  using assms
  by (auto simp: setup_douyin_client_def save_cookies_to_file_def io_defs pong_failed_def Let_def
           split: sum.splits if_splits)

text \<open>
  Claim C7 (no interactive login in headless mode). Let \<open>_setup_client_and_login\<close> run with
  \<open>headless = True\<close>, for any platform, in any world. Then none of the calls it makes
  constructs or starts the interactive login (\<open>XiaoHongShuLogin(...)\<close>, \<open>login_obj.begin()\<close>
  and their weibo and douyin counterparts), and if \<open>client.pong()\<close> was answered with a value
  that is not truthy, the step returns the client with \<open>is_logged_in = False\<close>. So a login
  call in the trace implies \<open>headless = False\<close>.
\<close>

theorem headless_pong_failure_no_login:
  assumes "setup_client_and_login env dir platform context page cookie_str True tr = (r, tr')"
  shows "\<exists>new. tr' = tr @ new \<and> \<not> list_ex is_login_call new
           \<and> (pong_failed (answers env tr new) \<longrightarrow> (\<exists>client. r = Inr (client, JBool False)))"
proof -
  consider "platform = ''xhs''" | "platform \<noteq> ''xhs''" "platform = ''weibo''"
    | "platform \<noteq> ''xhs''" "platform \<noteq> ''weibo''" "platform = ''douyin''"
    | "platform \<noteq> ''xhs''" "platform \<noteq> ''weibo''" "platform \<noteq> ''douyin''"
    by blast
  then show ?thesis
  proof cases
    case 1
    then show ?thesis using assms setup_xhs_headless by (simp add: setup_client_and_login_def)
  next
    case 2
    then show ?thesis using assms setup_weibo_headless by (simp add: setup_client_and_login_def)
  next
    case 3
    then show ?thesis using assms setup_douyin_headless by (simp add: setup_client_and_login_def)
  next
    case 4
    then have "tr' = tr" using assms by (simp add: setup_client_and_login_def io_raise_def)
    then show ?thesis by (simp add: pong_failed_def)
  qed
qed


theorem headless_pong_failure_no_login_witness:
  "setup_client_and_login env_expired ''./cookies'' ''xhs'' 3 6 (JStr ''a=1'') True []
     = (Inr (1, JBool False),
        [ContextCookies 3 [], ClientNew ''xhs'' (JStr ''a=1; web_session=x''), ClientPong 1])
   \<and> pong_failed (answers env_expired []
        [ContextCookies 3 [], ClientNew ''xhs'' (JStr ''a=1; web_session=x''), ClientPong 1])
   \<and> \<not> list_ex is_login_call
        [ContextCookies 3 [], ClientNew ''xhs'' (JStr ''a=1; web_session=x''), ClientPong 1]"
proof -
  have h: "setup_client_and_login env_expired ''./cookies'' ''xhs'' 3 6 (JStr ''a=1'') True []
     = (Inr (1, JBool False),
        [ContextCookies 3 [], ClientNew ''xhs'' (JStr ''a=1; web_session=x''), ClientPong 1])"
    by code_simp
  have p: "pong_failed (answers env_expired []
        [ContextCookies 3 [], ClientNew ''xhs'' (JStr ''a=1; web_session=x''), ClientPong 1])"
    by code_simp
  from headless_pong_failure_no_login [OF h] obtain new
    where n: "[ContextCookies 3 [], ClientNew ''xhs'' (JStr ''a=1; web_session=x''), ClientPong 1] = [] @ new"
      and a: "\<not> list_ex is_login_call new"
    by blast
  from n a have "\<not> list_ex is_login_call
        [ContextCookies 3 [], ClientNew ''xhs'' (JStr ''a=1; web_session=x''), ClientPong 1]"
    by simp
  with h p show ?thesis by (intro conjI)
qed

text \<open>
  With a visible browser the same failed probe does start the interactive login, on each of the
  three platforms; and the session created in headless mode carries \<open>is_logged_in = False\<close>.
\<close>

lemma visible_browser_starts_login:
  "list_ex is_login_call (snd (setup_client_and_login env_expired ''./cookies'' ''xhs'' 3 6 (JStr ''a=1'') False []))
   \<and> list_ex is_login_call (snd (setup_client_and_login env_expired ''./cookies'' ''weibo'' 3 6 (JStr ''a=1'') False []))
   \<and> list_ex is_login_call (snd (setup_client_and_login env_expired ''./cookies'' ''douyin'' 3 6 (JStr ''a=1'') False []))"
  by code_simp

lemma headless_session_not_logged_in:
  "(case create_session env_expired cfg0 ''douyin'' True None [] of
      (r, tr') \<Rightarrow> (case r of Inr session \<Rightarrow> s_is_logged_in session = JBool False | Inl e \<Rightarrow> False)
                   \<and> \<not> list_ex is_login_call tr')"
  by code_simp



section \<open>Properties of the search operation\<close>

lemma note_record_keyword:
  "note_record keyword note = Inr r \<Longrightarrow> py_get r ''keyword'' JNull = Inr (JStr keyword)"
  by (auto simp: note_record_def bind_exn_def split: sum.splits)

lemma append_notes_inv:
  assumes "append_notes keyword lim ns kr = (kr', eo)"
  shows "\<exists>new. kr' = kr @ new
           \<and> (\<forall>x\<in>set new. py_get x ''keyword'' JNull = Inr (JStr keyword))
           \<and> int (length kr') \<le> max lim (int (length kr))"
  using assms
proof (induction ns arbitrary: kr)
  case Nil
  then show ?case by simp
next
  case (Cons n ns)
  show ?case
  proof (cases "lim \<le> int (length kr)")
    case True
    then show ?thesis using Cons.prems by simp
  next
    case False
    show ?thesis
    proof (cases "note_record keyword n")
      case (Inl e)
      then show ?thesis using Cons.prems False by simp
    next
      case (Inr r)
      then have "append_notes keyword lim ns (kr @ [r]) = (kr', eo)"
        using Cons.prems False by simp
      from Cons.IH[OF this] obtain new where e: "kr' = (kr @ [r]) @ new"
        and t: "\<forall>x\<in>set new. py_get x ''keyword'' JNull = Inr (JStr keyword)"
        and l: "int (length kr') \<le> max lim (int (length (kr @ [r])))" by blast
      have "kr' = kr @ (r # new)" using e by simp
      moreover have "\<forall>x\<in>set (r # new). py_get x ''keyword'' JNull = Inr (JStr keyword)"
        using t note_record_keyword[OF Inr] by simp
      moreover have "int (length kr') \<le> max lim (int (length kr))" using l False by simp
      ultimately show ?thesis by blast
    qed
  qed
qed

lemma keyword_step_inv:
  assumes "keyword_step env client keyword sort_ty lim page kr tr = (st, tr')"
  shows "\<exists>new. step_results st = kr @ new
           \<and> (\<forall>x\<in>set new. py_get x ''keyword'' JNull = Inr (JStr keyword))
           \<and> int (length (step_results st)) \<le> max lim (int (length kr))"
proof -
  have triv: "\<exists>new. kr = kr @ new
           \<and> (\<forall>x\<in>set new. py_get x ''keyword'' JNull = Inr (JStr keyword))
           \<and> int (length kr) \<le> max lim (int (length kr))" by simp
  show ?thesis
    using assms triv append_notes_inv[of keyword lim _ kr]
    by (auto simp: keyword_step_def ext_def step_results_def
             split: sum.splits if_splits prod.splits option.splits)
qed

lemma keyword_loop_inv:
  assumes "keyword_loop env client keyword sort_ty lim page kr tr = Some (kr', tr')"
  shows "\<exists>new. kr' = kr @ new
           \<and> (\<forall>x\<in>set new. py_get x ''keyword'' JNull = Inr (JStr keyword))
           \<and> int (length kr') \<le> max lim (int (length kr))"
proof -
  define P where "P = (\<lambda>(keyword::string) (lim::int) (kr::json list) (res::json list \<times> call list).
      \<exists>new. fst res = kr @ new
           \<and> (\<forall>x\<in>set new. py_get x ''keyword'' JNull = Inr (JStr keyword))
           \<and> int (length (fst res)) \<le> max lim (int (length kr)))"
  have step: "P keyword lim kr y"
    if IH: "\<And>env client keyword sort_ty lim page kr tr y.
              loop env client keyword sort_ty lim page kr tr = Some y \<Longrightarrow> P keyword lim kr y"
    and eq: "(if int (length kr) < lim
              then (case keyword_step env client keyword sort_ty lim page kr tr of
                      (Break k, tr') \<Rightarrow> Some (k, tr')
                    | (Continue k, tr') \<Rightarrow> loop env client keyword sort_ty lim (page + 1) k tr')
              else Some (kr, tr)) = Some y"
    for loop :: "env \<Rightarrow> nat \<Rightarrow> string \<Rightarrow> SearchSortType \<Rightarrow> int \<Rightarrow> int \<Rightarrow> json list \<Rightarrow> call list
                   \<Rightarrow> (json list \<times> call list) option"
      and env client keyword sort_ty lim page kr tr y
  proof (cases "int (length kr) < lim")
    case False
    then show ?thesis using eq by (auto simp: P_def)
  next
    case True
    obtain st tr1 where st: "keyword_step env client keyword sort_ty lim page kr tr = (st, tr1)"
      by (cases "keyword_step env client keyword sort_ty lim page kr tr")
    from keyword_step_inv[OF st] obtain new1 where n1: "step_results st = kr @ new1"
      and t1: "\<forall>x\<in>set new1. py_get x ''keyword'' JNull = Inr (JStr keyword)"
      and l1: "int (length (step_results st)) \<le> max lim (int (length kr))" by blast
    show ?thesis
    proof (cases st)
      case (Break k)
      then have "y = (k, tr1)" using eq True st by simp
      then show ?thesis using n1 t1 l1 Break by (auto simp: P_def step_results_def)
    next
      case (Continue k)
      then have "loop env client keyword sort_ty lim (page + 1) k tr1 = Some y"
        using eq True st by simp
      from IH[OF this] obtain new2 where n2: "fst y = k @ new2"
        and t2: "\<forall>x\<in>set new2. py_get x ''keyword'' JNull = Inr (JStr keyword)"
        and l2: "int (length (fst y)) \<le> max lim (int (length k))" by (auto simp: P_def)
      have k: "k = kr @ new1" and lk: "int (length k) \<le> max lim (int (length kr))"
        using n1 l1 Continue by (simp_all add: step_results_def)
      have "fst y = kr @ (new1 @ new2)" using n2 k by simp
      moreover have "\<forall>x\<in>set (new1 @ new2). py_get x ''keyword'' JNull = Inr (JStr keyword)"
        using t1 t2 by auto
      moreover have "int (length (fst y)) \<le> max lim (int (length kr))" using l2 lk by linarith
      ultimately show ?thesis unfolding P_def by blast
    qed
  qed
  have "P keyword lim kr (kr', tr')"
    by (rule keyword_loop.raw_induct
          [where P = "\<lambda>env client keyword sort_ty lim page kr tr y. P keyword lim kr y", OF step assms])
  then show ?thesis by (simp add: P_def)
qed

lemma search_keywords_chunks:
  assumes "search_keywords env client sort_ty lim kws results tr = Some (results', tr')"
  shows "\<exists>chunks. results' = results @ concat chunks
           \<and> list_all2 (\<lambda>keyword chunk. int (length chunk) \<le> max lim 0
                  \<and> (\<forall>x\<in>set chunk. py_get x ''keyword'' JNull = Inr (JStr keyword))) kws chunks"
  using assms
proof (induction kws arbitrary: results tr)
  case Nil
  then show ?case by simp
next
  case (Cons kw kws)
  from Cons.prems obtain kr tr1 where
      l: "keyword_loop env client kw sort_ty lim 1 [] tr = Some (kr, tr1)"
    and r: "search_keywords env client sort_ty lim kws (results @ kr) tr1 = Some (results', tr')"
    by (auto split: option.splits)
  from keyword_loop_inv[OF l] have
      t: "\<forall>x\<in>set kr. py_get x ''keyword'' JNull = Inr (JStr kw)"
    and b: "int (length kr) \<le> max lim 0" by auto
  from Cons.IH[OF r] obtain chunks where c: "results' = (results @ kr) @ concat chunks"
    and a: "list_all2 (\<lambda>keyword chunk. int (length chunk) \<le> max lim 0
                  \<and> (\<forall>x\<in>set chunk. py_get x ''keyword'' JNull = Inr (JStr keyword))) kws chunks"
    by blast
  have "results' = results @ concat (kr # chunks)" using c by simp
  moreover have "list_all2 (\<lambda>keyword chunk. int (length chunk) \<le> max lim 0
                  \<and> (\<forall>x\<in>set chunk. py_get x ''keyword'' JNull = Inr (JStr keyword))) (kw # kws) (kr # chunks)"
    using a t b by simp
  ultimately show ?case by blast
qed

lemma concat_length_bound:
  assumes "list_all2 (\<lambda>k c. int (length c) \<le> b \<and> Q k c) kws chunks"
  shows "int (length (concat chunks)) \<le> int (length kws) * b"
  using assms
proof (induction rule: list_all2_induct)
  case Nil
  then show ?case by simp
next
  case (Cons k ks c cs)
  then show ?case by (simp add: algebra_simps)
qed

lemma keyword_list_nonempty: "keyword_list keywords \<noteq> []"
  by (simp add: keyword_list_def split_char_nonempty)

lemma check_login_refusal:
  assumes "check_login env cfg headless cookies_dir session tr = (Inr (Some t), tr')"
  shows "t = failure no_cookies_message"
  using assms
  by (auto simp: check_login_def adapter_get_cookie_def io_bind_def io_ret_def ext_def
           split: if_splits sum.splits)

lemma search_result_cases:
  assumes "search_result env kws limit save_results results tr = (r, tr')"
  shows "(\<exists>e. r = Inl e)
       \<or> (\<exists>m. r = Inr \<lparr>success = True, data = JList (py_take results limit), error = None, metadata = m\<rparr>
              \<and> map fst m = [''total'', ''keywords'', ''platform'', ''saved_path''])"
  using assms
  by (auto simp: search_result_def io_bind_def io_ret_def ext_def Let_def split: if_splits sum.splits)

lemma py_take_all: "0 \<le> n \<Longrightarrow> int (length xs) \<le> n \<Longrightarrow> py_take xs n = xs"
  by (simp add: py_take_def)

lemma search_notes_cases:
  assumes "search_notes env cfg ss headless cookies_dir keywords limit sort_by save_results tr = Some (r, ss', tr')"
  shows "(\<exists>msg. r = failure msg)
       \<or> (\<exists>(session::browser_session) client_tr results tr3 m.
              search_keywords env (s_client session) (sort_type sort_by)
                 (limit_per_keyword limit (keyword_list keywords)) (keyword_list keywords) [] client_tr
                = Some (results, tr3)
            \<and> r = \<lparr>success = True, data = JList (py_take results limit), error = None, metadata = m\<rparr>
            \<and> map fst m = [''total'', ''keywords'', ''platform'', ''saved_path''])"
proof -
  from assms obtain rb where b: "search_notes_body env cfg ss headless cookies_dir keywords limit sort_by save_results tr = Some (rb, ss', tr')"
    and r: "r = handle_exn rb"
    by (auto simp: search_notes_def)
  show ?thesis
  proof (cases rb)
    case (Inl e)
    then have "r = failure (str_exn e)" using r by (simp add: handle_exn_def)
    then show ?thesis by (intro disjI1 exI)
  next
    case (Inr t)
    then have rt: "r = t" using r by (simp add: handle_exn_def)
    obtain g ss1 tr1 where g: "get_session env cfg ss ''xhs'' headless cookies_dir False tr = (g, ss1, tr1)"
      by (cases "get_session env cfg ss ''xhs'' headless cookies_dir False tr") auto
    then obtain session where gs: "g = Inr session"
      using b Inr by (cases g) (auto simp: search_notes_body_def)
    obtain c tr2 where c: "check_login env cfg headless cookies_dir session tr1 = (c, tr2)"
      by (cases "check_login env cfg headless cookies_dir session tr1")
    then obtain co where cs: "c = Inr co"
      using b Inr g gs by (cases c) (auto simp: search_notes_body_def)
    show ?thesis
    proof (cases co)
      case (Some refused)
      then have "t = refused" using b Inr g gs c cs by (auto simp: search_notes_body_def)
      moreover have "refused = failure no_cookies_message"
        using check_login_refusal c cs Some by blast
      ultimately have "r = failure no_cookies_message" using rt by simp
      then show ?thesis by (intro disjI1 exI)
    next
      case None
      then obtain results tr3 where
          k: "search_keywords env (s_client session) (sort_type sort_by)
                 (limit_per_keyword limit (keyword_list keywords)) (keyword_list keywords) [] tr2
                = Some (results, tr3)"
        and sr: "search_result env (keyword_list keywords) limit save_results results tr3 = (Inr t, tr')"
        using b Inr g gs c cs
        by (auto simp: search_notes_body_def Let_def split: option.splits prod.splits)
      from search_result_cases[OF sr] obtain m where
          t: "t = \<lparr>success = True, data = JList (py_take results limit), error = None, metadata = m\<rparr>"
        and m: "map fst m = [''total'', ''keywords'', ''platform'', ''saved_path'']"
        by auto
      have r': "r = \<lparr>success = True, data = JList (py_take results limit), error = None, metadata = m\<rparr>"
        using rt t by simp
      have "\<exists>(session::browser_session) client_tr results tr3 m.
              search_keywords env (s_client session) (sort_type sort_by)
                 (limit_per_keyword limit (keyword_list keywords)) (keyword_list keywords) [] client_tr
                = Some (results, tr3)
            \<and> r = \<lparr>success = True, data = JList (py_take results limit), error = None, metadata = m\<rparr>
            \<and> map fst m = [''total'', ''keywords'', ''platform'', ''saved_path'']"
        by (intro exI[of _ session] exI[of _ tr2] exI[of _ results] exI[of _ tr3] exI[of _ m] conjI k r' m)
      then show ?thesis by (rule disjI2)
    qed
  qed
qed

subsection \<open>The pagination bound\<close>

text \<open>
  Claim C1 as stated fails for a negative limit: with \<open>limit = -1\<close> and one keyword the
  per-keyword limit is \<open>-1 // 1 = -1\<close>, no page is fetched, and the operation returns the empty
  list, whose length 0 is not at most \<open>-1\<close>.
\<close>

theorem search_notes_negative_limit_counterexample:
  "map_option (\<lambda>(r, ss', tr'). (success r, data r))
     (search_notes env_search cfg0 sessions0 True None ''cat'' (- 1) ''general'' False trace0)
     = Some (True, JList [])
   \<and> limit_per_keyword (- 1) (keyword_list ''cat'') = - 1
   \<and> \<not> int (length ([] :: json list)) \<le> - 1"
  by code_simp

text \<open>
  Claim C1, amended to a limit \<open>N \<ge> 0\<close>: whenever \<open>search_notes\<close> returns, either the result is
  a failure without data, or its data is the concatenation of one chunk per entry of the keyword
  list, in order, where the chunk of a keyword holds only records tagged with that keyword and
  has at most \<open>N // k\<close> of them, and the whole list has at most \<open>N\<close> records.
\<close>

theorem search_notes_pagination_bound:
  assumes "0 \<le> limit"
      and "search_notes env cfg ss headless cookies_dir keywords limit sort_by save_results tr = Some (r, ss', tr')"
  shows "if success r
         then (\<exists>chunks. data r = JList (concat chunks)
                 \<and> int (length (concat chunks)) \<le> limit
                 \<and> list_all2 (\<lambda>keyword chunk.
                        int (length chunk) \<le> limit div int (length (keyword_list keywords))
                      \<and> (\<forall>x\<in>set chunk. py_get x ''keyword'' JNull = Inr (JStr keyword)))
                      (keyword_list keywords) chunks)
         else data r = JNull"
proof -
  let ?kws = "keyword_list keywords"
  let ?k = "int (length ?kws)"
  let ?lim = "limit_per_keyword limit ?kws"
  have kpos: "0 < ?k" using keyword_list_nonempty by simp
  have lim: "?lim = limit div ?k" using keyword_list_nonempty by (simp add: limit_per_keyword_def)
  have lim0: "0 \<le> ?lim" using assms(1) kpos lim by (simp add: pos_imp_zdiv_nonneg_iff)
  have tot: "?k * ?lim \<le> limit"
    unfolding lim using kpos by (metis mult.commute div_mult_mod_eq pos_mod_sign add.commute le_add_same_cancel2 add_increasing2 order_refl)
  from search_notes_cases[OF assms(2)] show ?thesis
  proof
    assume "\<exists>msg. r = failure msg"
    then show ?thesis by (auto simp: failure_def)
  next
    assume "\<exists>(session::browser_session) client_tr results tr3 m.
              search_keywords env (s_client session) (sort_type sort_by) ?lim ?kws [] client_tr
                = Some (results, tr3)
            \<and> r = \<lparr>success = True, data = JList (py_take results limit), error = None, metadata = m\<rparr>
            \<and> map fst m = [''total'', ''keywords'', ''platform'', ''saved_path'']"
    then obtain session :: browser_session and client_tr results tr3 m where
        k: "search_keywords env (s_client session) (sort_type sort_by) ?lim ?kws [] client_tr = Some (results, tr3)"
      and r: "r = \<lparr>success = True, data = JList (py_take results limit), error = None, metadata = m\<rparr>"
      by blast
    from search_keywords_chunks[OF k] obtain chunks where c: "results = concat chunks"
      and a: "list_all2 (\<lambda>keyword chunk. int (length chunk) \<le> max ?lim 0
                  \<and> (\<forall>x\<in>set chunk. py_get x ''keyword'' JNull = Inr (JStr keyword))) ?kws chunks"
      by auto
    have m: "max ?lim 0 = limit div ?k" using lim0 lim by simp
    have a': "list_all2 (\<lambda>keyword chunk. int (length chunk) \<le> limit div ?k
                  \<and> (\<forall>x\<in>set chunk. py_get x ''keyword'' JNull = Inr (JStr keyword))) ?kws chunks"
      using a unfolding m .
    from concat_length_bound[OF a'] have "int (length (concat chunks)) \<le> ?k * (limit div ?k)" .
    then have len: "int (length (concat chunks)) \<le> limit" using tot lim by simp
    have "py_take results limit = concat chunks"
      using py_take_all[OF assms(1)] len c by simp
    then have d: "data r = JList (concat chunks)" and s: "success r" using r by simp_all
    have "\<exists>chunks. data r = JList (concat chunks)
                 \<and> int (length (concat chunks)) \<le> limit
                 \<and> list_all2 (\<lambda>keyword chunk.
                        int (length chunk) \<le> limit div ?k
                      \<and> (\<forall>x\<in>set chunk. py_get x ''keyword'' JNull = Inr (JStr keyword)))
                      ?kws chunks"
      by (intro exI[of _ chunks] conjI d len a')
    then show ?thesis using s by simp
  qed
qed

theorem search_notes_pagination_bound_witness:
  "(0::int) \<le> 10
   \<and> (case search_notes env_search cfg0 sessions0 True None ''bad, cat'' 10 ''hot'' False trace0 of
         None \<Rightarrow> False
       | Some (r, ss', tr') \<Rightarrow>
           success r
         \<and> data r \<noteq> JList []
         \<and> (\<exists>chunks. data r = JList (concat chunks)
                 \<and> int (length (concat chunks)) \<le> 10
                 \<and> list_all2 (\<lambda>keyword chunk.
                        int (length chunk) \<le> 10 div int (length (keyword_list ''bad, cat''))
                      \<and> (\<forall>x\<in>set chunk. py_get x ''keyword'' JNull = Inr (JStr keyword)))
                      (keyword_list ''bad, cat'') chunks))"
proof -
  have h0: "(0::int) \<le> 10" by simp
  have h1: "search_notes env_search cfg0 sessions0 True None ''bad, cat'' 10 ''hot'' False trace0 \<noteq> None"
    unfolding sessions0_def trace0_def by code_simp
  then obtain r ss' tr' where
    h2: "search_notes env_search cfg0 sessions0 True None ''bad, cat'' 10 ''hot'' False trace0 = Some (r, ss', tr')"
    by (cases "search_notes env_search cfg0 sessions0 True None ''bad, cat'' 10 ''hot'' False trace0") auto
  have "success (fst (the (search_notes env_search cfg0 sessions0 True None ''bad, cat'' 10 ''hot'' False trace0)))
      \<and> data (fst (the (search_notes env_search cfg0 sessions0 True None ''bad, cat'' 10 ''hot'' False trace0))) \<noteq> JList []"
    unfolding sessions0_def trace0_def by code_simp
  then have s: "success r" and d: "data r \<noteq> JList []" using h2 by simp_all
  from search_notes_pagination_bound [OF h0 h2] s
  have "\<exists>chunks. data r = JList (concat chunks)
                 \<and> int (length (concat chunks)) \<le> 10
                 \<and> list_all2 (\<lambda>keyword chunk.
                        int (length chunk) \<le> 10 div int (length (keyword_list ''bad, cat''))
                      \<and> (\<forall>x\<in>set chunk. py_get x ''keyword'' JNull = Inr (JStr keyword)))
                      (keyword_list ''bad, cat'') chunks"
    by simp
  with s d h0 show ?thesis unfolding h2 by simp
qed



subsection \<open>More keywords than the limit\<close>

lemma keyword_loop_done:
  "\<not> int (length kr) < lim \<Longrightarrow> keyword_loop env client keyword sort_ty lim page kr tr = Some (kr, tr)"
  by (subst keyword_loop.simps) simp

lemma search_keywords_zero:
  "lim \<le> 0 \<Longrightarrow> search_keywords env client sort_ty lim kws results tr = Some (results, tr)"
  by (induction kws arbitrary: results tr) (simp_all add: keyword_loop_done)

text \<open>
  Claim C9 as stated fails: the call may end before the keywords are looked at. In headless mode,
  in a world without any cookie and with a failing login probe, \<open>search_notes("a,b", limit=1)\<close>
  (two keywords, limit one) returns the failure result of the login check, not a success with an
  empty list.
\<close>

theorem search_notes_login_gate_counterexample:
  "(1::int) \<le> 1 \<and> 1 < int (length (keyword_list ''a,b''))
   \<and> map_option (\<lambda>(r, ss', tr'). (success r, data r, error r))
        (search_notes env_no_cookie cfg0 Map.empty True None ''a,b'' 1 ''general'' False [])
      = Some (False, JNull, Some no_cookies_message)"
  by code_simp

text \<open>
  Claim C9, amended: let the number of keywords exceed the limit \<open>N \<ge> 1\<close>, let
  \<open>_get_session\<close> return a session and let the login check at the head of \<open>search_notes\<close>
  pass. Then the per-keyword limit is 0 and the operation returns, with \<open>success = True\<close>,
  the empty list as data and \<open>total = 0\<close>; the trace is the one the login check left: no
  page is requested from the client and nothing is saved.
\<close>

theorem search_notes_more_keywords_than_limit:
  assumes "1 \<le> limit" and "limit < int (length (keyword_list keywords))"
      and "get_session env cfg ss ''xhs'' headless cookies_dir False tr = (Inr session, ss1, tr1)"
      and "check_login env cfg headless cookies_dir session tr1 = (Inr None, tr2)"
  shows "limit_per_keyword limit (keyword_list keywords) = 0
       \<and> search_notes env cfg ss headless cookies_dir keywords limit sort_by save_results tr
           = Some (\<lparr>success = True, data = JList [], error = None,
                     metadata = [(''total'', JInt 0),
                                 (''keywords'', JList (map JStr (keyword_list keywords))),
                                 (''platform'', JStr ''xhs''),
                                 (''saved_path'', JNull)]\<rparr>, ss1, tr2)"
proof -
  have lim: "limit_per_keyword limit (keyword_list keywords) = 0"
    using assms(1,2) by (auto simp: limit_per_keyword_def div_pos_pos_trivial)
  have k: "search_keywords env (s_client session) (sort_type sort_by) 0 (keyword_list keywords) [] tr2
             = Some ([], tr2)"
    by (rule search_keywords_zero) simp
  have t: "py_take ([]::json list) limit = []" by (simp add: py_take_def)
  have "search_notes_body env cfg ss headless cookies_dir keywords limit sort_by save_results tr
           = Some (Inr \<lparr>success = True, data = JList [], error = None,
                     metadata = [(''total'', JInt 0),
                                 (''keywords'', JList (map JStr (keyword_list keywords))),
                                 (''platform'', JStr ''xhs''),
                                 (''saved_path'', JNull)]\<rparr>, ss1, tr2)"
    by (simp add: search_notes_body_def assms(3,4) lim k search_result_def t io_bind_def io_ret_def)
  then show ?thesis using lim by (simp add: search_notes_def handle_exn_def)
qed

theorem search_notes_more_keywords_than_limit_witness:
  "(1::int) \<le> 2 \<and> 2 < int (length (keyword_list ''a,b,c''))
   \<and> get_session env_search cfg0 sessions0 ''xhs'' True None False trace0
       = (Inr session0, sessions0, trace0 @ [PageTitle (s_page session0)])
   \<and> check_login env_search cfg0 True None session0 (trace0 @ [PageTitle (s_page session0)])
       = (Inr None, trace0 @ [PageTitle (s_page session0)])
   \<and> limit_per_keyword 2 (keyword_list ''a,b,c'') = 0
   \<and> search_notes env_search cfg0 sessions0 True None ''a,b,c'' 2 ''general'' True trace0
       = Some (\<lparr>success = True, data = JList [], error = None,
                 metadata = [(''total'', JInt 0),
                             (''keywords'', JList (map JStr (keyword_list ''a,b,c''))),
                             (''platform'', JStr ''xhs''),
                             (''saved_path'', JNull)]\<rparr>,
               sessions0, trace0 @ [PageTitle (s_page session0)])"
proof -
  have h1: "(1::int) \<le> 2" by simp
  have h2: "2 < int (length (keyword_list ''a,b,c''))" by code_simp
  have p: "env_search trace0 (PageTitle (s_page session0)) = Inr (JStr ''Explore'')"
    by (simp add: env_search_def env_ok_def)
  have h3: "get_session env_search cfg0 sessions0 ''xhs'' True None False trace0
       = (Inr session0, sessions0, trace0 @ [PageTitle (s_page session0)])"
    by (rule get_session_probe_ok [where ss = sessions0 and platform = "''xhs''" and session = session0
          and env = env_search and tr = trace0, OF first_session p])
  have h4: "check_login env_search cfg0 True None session0 (trace0 @ [PageTitle (s_page session0)])
       = (Inr None, trace0 @ [PageTitle (s_page session0)])"
    by (simp add: check_login_def session0_def io_ret_def)
  note c = search_notes_more_keywords_than_limit [OF h1 h2 h3 h4, of "''general''" True]
  show ?thesis
    by (intro conjI h1 h2 h3 h4 c [THEN conjunct1] c [THEN conjunct2])
qed


subsection \<open>A keyword whose search raises\<close>



lemma search_notes_success_shape:
  assumes "search_notes env cfg ss headless cookies_dir keywords limit sort_by save_results tr = Some (r, ss', tr')"
      and "success r"
  shows "error r = None \<and> map fst (metadata r) = [''total'', ''keywords'', ''platform'', ''saved_path'']"
  using search_notes_cases[OF assms(1)] assms(2) by (auto simp: failure_def)






end
